theory Spec2Isabelle
  imports Complex_Main "HOL-Library.Word"
begin

unbundle bit_operations_syntax

section \<open>Dynamic querying (core/dq.c): data model\<close>

text \<open>
  The embedding follows \<^verbatim>\<open>src/core/dq.c\<close>. The \<^verbatim>\<open>guint32\<close> counters of a query are
  \<open>32 word\<close>s, so that \<open>+\<close> and \<open>-\<close> wrap as in C. A failed \<^verbatim>\<open>g_assert\<close> (which aborts the
  process) is the error value \<open>Assertion_Failed\<close>, \<^verbatim>\<open>g_error\<close> is \<open>Fatal_Error\<close>.

  The two places that compute in \<^verbatim>\<open>double\<close> (\<^verbatim>\<open>dq_get_horizon\<close> and \<^verbatim>\<open>dq_select_ttl\<close>) are
  modelled with exact real arithmetic. In the table, \<^verbatim>\<open>pow(i, j)\<close> on the small integers
  is exact in binary floating point; the product of a table entry with \<^verbatim>\<open>pow(0.80, j)\<close> is
  a whole number only when \<open>j = 1\<close> and the entry is a multiple of 5 (where the rounded
  product is that whole number), and is otherwise at least \<open>1/625\<close> away from one, far
  more than the rounding error, so truncating the \<^verbatim>\<open>double\<close> gives the floor of the exact
  product. In the TTL selection the two quotients are only compared with whole horizons:
  the operands are 32-bit integers (and the constant \<open>0.000001\<close>), and a rounded quotient
  falls on the other side of a horizon than the exact one only when more than \<open>2^31\<close>
  results are still needed.
\<close>

datatype error = Assertion_Failed | Fatal_Error

type_synonym node_id_t = "64 word"
type_synonym muid_t = "8 word list"
type_synonym gnet_search_t = "32 word"
type_synonym query_hashvec_t = nat
type_synonym dq_ptr = nat

subsection \<open>Tunable constants\<close>

definition DQ_LINGER_TIMEOUT :: "32 word" where "DQ_LINGER_TIMEOUT = 180000"
definition DQ_STATUS_TIMEOUT :: "32 word" where "DQ_STATUS_TIMEOUT = 40000"
definition DQ_PENDING_TIMEOUT :: "32 word" where "DQ_PENDING_TIMEOUT = 1200"
definition DQ_TIMEOUT_ADJUST :: "32 word" where "DQ_TIMEOUT_ADJUST = 100"
definition DQ_MIN_TIMEOUT :: "32 word" where "DQ_MIN_TIMEOUT = 1500"
definition DQ_MAX_PENDING :: "32 word" where "DQ_MAX_PENDING = 3"
definition DQ_MAX_STAT_TIMEOUT :: "32 word" where "DQ_MAX_STAT_TIMEOUT = 2"
definition DQ_STAT_THRESHOLD :: "32 word" where "DQ_STAT_THRESHOLD = 3"
definition DQ_MIN_FOR_GUIDANCE :: "32 word" where "DQ_MIN_FOR_GUIDANCE = 20"
definition DQ_MAX_HORIZON :: "32 word" where "DQ_MAX_HORIZON = 500000"
definition DQ_MIN_HORIZON :: "32 word" where "DQ_MIN_HORIZON = 3000"
definition DQ_LOW_RESULTS :: "32 word" where "DQ_LOW_RESULTS = 10"
definition DQ_MAX_TTL :: int where "DQ_MAX_TTL = 5"
definition DQ_AVG_ULTRA_NODES :: "32 word" where "DQ_AVG_ULTRA_NODES = 3"
definition DQ_FUZZY_FACTOR :: real where "DQ_FUZZY_FACTOR = 80 / 100"

definition MAX_DEGREE :: nat where "MAX_DEGREE = 50"
definition MAX_TTL :: nat where "MAX_TTL = 5"

subsection \<open>Operational flags\<close>

definition DQ_F_ID_CLEANING :: "32 word" where "DQ_F_ID_CLEANING = push_bit 0 1"
definition DQ_F_LINGER :: "32 word" where "DQ_F_LINGER = push_bit 1 1"
definition DQ_F_LEAF_GUIDED :: "32 word" where "DQ_F_LEAF_GUIDED = push_bit 2 1"
definition DQ_F_WAITING :: "32 word" where "DQ_F_WAITING = push_bit 3 1"
definition DQ_F_GOT_GUIDANCE :: "32 word" where "DQ_F_GOT_GUIDANCE = push_bit 4 1"
definition DQ_F_USR_CANCELLED :: "32 word" where "DQ_F_USR_CANCELLED = push_bit 5 1"
definition DQ_F_ROUTING_HITS :: "32 word" where "DQ_F_ROUTING_HITS = push_bit 6 1"
definition DQ_F_EXITING :: "32 word" where "DQ_F_EXITING = push_bit 7 1"
definition DQ_F_REMOVED :: "32 word" where "DQ_F_REMOVED = push_bit 8 1"

text \<open>The C test \<^verbatim>\<open>(flags & mask)\<close> used as a truth value.\<close>

definition flag_set :: "'a::len word \<Rightarrow> 'a word \<Rightarrow> bool" where
  "flag_set f m \<longleftrightarrow> f AND m \<noteq> 0"

subsection \<open>Callout queue events\<close>

text \<open>
  An event pointer \<^verbatim>\<open>cevent_t *\<close> of a query is \<open>None\<close> for \<^verbatim>\<open>NULL\<close>, otherwise the
  scheduled event: the 32-bit delay (in ms) it was last inserted or rescheduled with, and
  its callback. \<^verbatim>\<open>cq_cancel\<close> resets the pointer to \<^verbatim>\<open>NULL\<close>.
\<close>

datatype cq_service = Dq_expired | Dq_results_expired

record cevent =
  ev_delay :: "32 word"
  ev_fn :: cq_service

definition cq_insert :: "32 word \<Rightarrow> cq_service \<Rightarrow> cevent option" where
  "cq_insert delay fn = Some \<lparr>ev_delay = delay, ev_fn = fn\<rparr>"

definition cq_resched :: "cevent \<Rightarrow> 32 word \<Rightarrow> cevent option" where
  "cq_resched ev delay = Some (ev\<lparr>ev_delay := delay\<rparr>)"

subsection \<open>Neighbours, candidates, queries, send metadata\<close>

text \<open>
  The fields of \<^verbatim>\<open>gnutella_node_t\<close> read by the engine (declared in nodes.h): the integer
  fields are kept as \<open>int\<close>, the macros \<^verbatim>\<open>NODE_IS_ULTRA\<close>, \<^verbatim>\<open>NODE_IS_WRITABLE\<close>,
  \<^verbatim>\<open>NODE_IN_TX_FLOW_CONTROL\<close> and \<^verbatim>\<open>NODE_UP_QRP\<close> as booleans.
\<close>

record gnutella_node =
  n_id :: node_id_t
  degree :: int
  max_ttl :: int
  received :: int
  hops_flow :: int
  is_ultra :: bool
  is_writable :: bool
  in_tx_flow_control :: bool
  up_qrp :: bool

record next_up =
  nid :: node_id_t
  node :: gnutella_node
  can_route :: int

record dquery =
  node_id :: node_id_t
  qid :: "32 word"
  flags :: "32 word"
  sh :: gnet_search_t
  muid :: muid_t
  qhv :: query_hashvec_t
  queried :: "node_id_t set"
  lmuid :: "muid_t option"
  query_flags :: "16 word"
  ttl :: "8 word"
  horizon :: "32 word"
  up_sent :: "32 word"
  last_status :: "32 word"
  pending :: "32 word"
  max_results :: "32 word"
  fin_results :: "32 word"
  oob_results :: "32 word"
  results :: "32 word"
  linger_results :: "32 word"
  new_results :: "32 word"
  kept_results :: "32 word"
  result_timeout :: "32 word"
  stat_timeouts :: "32 word"
  expire_ev :: "cevent option"
  results_ev :: "cevent option"
  alive :: bool
  nv :: "next_up list option"

record pmsg_info =
  pmi_node_id :: node_id_t
  pmi_dq :: dq_ptr
  pmi_qid :: "32 word"
  pmi_degree :: "16 word"
  pmi_ttl :: "8 word"

text \<open>
  The collaborators of the engine and the constants and properties declared outside
  dq.c are parameters: the local search store, the peer mode, the connection limits, the
  neighbour table, the QRP predicate, the alive-ping statistics of the originating leaf
  of a query, the order \<^verbatim>\<open>qsort\<close> leaves the candidate vector in (with the \<open>can_route\<close>
  answers the comparator cached), the debug level, and the bit masks of the query speed
  and hit status fields.
\<close>

record env =
  NODE_ID_SELF :: node_id_t
  search_get_kept_results_by_handle :: "gnet_search_t \<Rightarrow> 32 word"
  current_peermode_is_ultra :: bool
  max_connections :: "32 word"
  normal_connections :: "32 word"
  node_all_nodes :: "gnutella_node list"
  node_active_by_id :: "node_id_t \<Rightarrow> gnutella_node option"
  qrp_node_can_route :: "gnutella_node \<Rightarrow> query_hashvec_t \<Rightarrow> bool"
  qsort_node_mq_qrp_cmp :: "next_up list \<Rightarrow> next_up list"
  alive_get_roundtrip_ms :: "node_id_t \<Rightarrow> 32 word \<times> 32 word"
  dq_debug :: "32 word"
  ST_FIREWALL :: "16 word"
  ST_FW2FW :: "16 word"
  QUERY_SPEED_FIREWALLED :: "16 word"
  QUERY_SPEED_FW_TO_FW :: "16 word"

text \<open>
  The process-wide state: the memory holding the query records (a record stays readable
  at its address after it was freed, as the storage does), the table \<open>dqueries\<close> of the
  records that are alive, the indices by originating node, by wire MUID and by leaf MUID,
  and what the engine handed to its collaborators: the messages given to the message
  layer with their send metadata, the query status requests sent, and the calls of
  \<^verbatim>\<open>node_set_leaf_guidance\<close>.
\<close>

record dq_state =
  mem :: "dq_ptr \<Rightarrow> dquery"
  dqueries :: "dq_ptr set"
  by_node_id :: "node_id_t \<rightharpoonup> dq_ptr list"
  by_muid :: "muid_t \<rightharpoonup> dq_ptr"
  by_leaf_muid :: "muid_t \<rightharpoonup> dq_ptr"
  sendq :: "pmsg_info list"
  qstat_reqs :: "(node_id_t \<times> muid_t) list"
  leaf_guidance :: "(node_id_t \<times> bool) list"

definition store :: "dq_state \<Rightarrow> dq_ptr \<Rightarrow> dquery \<Rightarrow> dq_state" where
  "store s p dq = s\<lparr>mem := (mem s)(p := dq)\<rparr>"

section \<open>Horizon model\<close>

text \<open>
  \<^verbatim>\<open>fill_hosts\<close>: the outer loop runs over the rows \<open>i = 0 .. MAX_DEGREE - 1\<close>, the inner
  one sets \<^verbatim>\<open>hosts[i][0] = 1\<close> and \<^verbatim>\<open>hosts[i][j] = hosts[i][j-1] + pow(i, j)\<close>.
\<close>

definition fill_row :: "nat \<Rightarrow> nat list \<Rightarrow> nat list" where
  "fill_row i row = foldl (\<lambda>r j. r[j := r ! (j - 1) + i ^ j]) (row[0 := 1]) [1..<MAX_TTL]"

definition fill_hosts :: "nat list list \<Rightarrow> nat list list" where
  "fill_hosts h = foldl (\<lambda>t i. t[i := fill_row i (t ! i)]) h [0..<MAX_DEGREE]"

definition hosts :: "nat list list" where
  "hosts = fill_hosts (replicate MAX_DEGREE (replicate MAX_TTL 0))"

definition dq_get_horizon :: "int \<Rightarrow> int \<Rightarrow> error + 32 word" where
  "dq_get_horizon dg t =
     (if \<not> dg > 0 then Inl Assertion_Failed
      else if \<not> t > 0 then Inl Assertion_Failed
      else
        let i = nat (min dg (int MAX_DEGREE) - 1);
            j = nat (min t (int MAX_TTL) - 1)
        in Inr (word_of_int \<lfloor>of_nat (hosts ! i ! j) * DQ_FUZZY_FACTOR ^ j\<rfloor>))"

text \<open>
  The horizon as the specification words it: the sum of the powers of the degree itself,
  scaled by the fuzzy factor, inputs clamped to the table.
\<close>

definition spec_horizon :: "int \<Rightarrow> int \<Rightarrow> int" where
  "spec_horizon dg t =
     (let d = min dg 50; n = nat (min t 5)
      in \<lfloor>(80 / 100 :: real) ^ (n - 1) * of_int (\<Sum>i<n. d ^ i)\<rfloor>)"

section \<open>Kept results and TTL selection\<close>

text \<open>
  \<^verbatim>\<open>dq_kept_results\<close> returns the amount of results kept for the query; for a local query
  it also refreshes the field \<open>kept_results\<close> from the search store, so the query record
  is returned with the value.
\<close>

definition dq_kept_results :: "env \<Rightarrow> dquery \<Rightarrow> 32 word \<times> dquery" where
  "dq_kept_results e dq =
     (if node_id dq = NODE_ID_SELF e then
        let k = search_get_kept_results_by_handle e (sh dq) in (k, dq\<lparr>kept_results := k\<rparr>)
      else if flag_set (flags dq) DQ_F_GOT_GUIDANCE then
        (kept_results dq div DQ_AVG_ULTRA_NODES + new_results dq, dq)
      else (results dq, dq))"

text \<open>
  The loop of \<^verbatim>\<open>dq_select_ttl\<close> counts the TTL down from its start value and leaves at
  the first TTL whose horizon does not exceed the target; it ends with 0 when none does.
\<close>

fun select_ttl_loop :: "int \<Rightarrow> real \<Rightarrow> nat \<Rightarrow> error + nat" where
  "select_ttl_loop dg reach 0 = Inr 0"
| "select_ttl_loop dg reach (Suc n) =
     (case dq_get_horizon dg (int (Suc n)) of
        Inl err \<Rightarrow> Inl err
      | Inr h \<Rightarrow>
          if of_nat (unat h) \<le> reach then Inr (Suc n) else select_ttl_loop dg reach n)"

definition hosts_to_reach_via_node :: "dquery \<Rightarrow> 32 word \<Rightarrow> int \<Rightarrow> real" where
  "hosts_to_reach_via_node dq needed connections =
     (let results_per_up = (of_nat (unat (results dq div max (horizon dq) 1)) :: real);
          hosts_to_reach = of_nat (unat needed) / max results_per_up (1 / 1000000)
      in hosts_to_reach / of_int connections)"

definition dq_select_ttl :: "env \<Rightarrow> dquery \<Rightarrow> gnutella_node \<Rightarrow> int \<Rightarrow> error + int \<times> dquery" where
  "dq_select_ttl e dq0 n connections =
     (if \<not> connections > 0 then Inl Assertion_Failed
      else
        let (res, dq) = dq_kept_results e dq0;
            needed = max_results dq - res
        in if \<not> needed > 0 then Inl Assertion_Failed
           else
             let tmax = min (max_ttl n) (uint (ttl dq))
             in case select_ttl_loop (degree n)
                       (hosts_to_reach_via_node dq needed connections) (nat tmax) of
                  Inl err \<Rightarrow> Inl err
                | Inr t \<Rightarrow>
                    let t' = (if t = 0 then tmax else int t)
                    in if \<not> t' > 0 then Inl Assertion_Failed else Inr (t', dq))"

text \<open>
  The TTL selection as the specification words it: the smallest TTL up to the bound whose
  horizon does not exceed the target, the bound itself when there is none.
\<close>

definition spec_select_ttl :: "int \<Rightarrow> real \<Rightarrow> nat \<Rightarrow> nat" where
  "spec_select_ttl dg reach tmax =
     (case filter (\<lambda>t. case dq_get_horizon dg (int t) of
                          Inl err \<Rightarrow> False
                        | Inr h \<Rightarrow> of_nat (unat h) \<le> reach) [1..<Suc tmax] of
        [] \<Rightarrow> tmax
      | t # _ \<Rightarrow> t)"

section \<open>Send bookkeeper\<close>

definition dq_alive :: "dq_state \<Rightarrow> dq_ptr \<Rightarrow> 32 word \<Rightarrow> bool" where
  "dq_alive s p q = (if p \<notin> dqueries s then False else qid (mem s p) = q)"

text \<open>
  \<^verbatim>\<open>dq_pmsg_free\<close>, the free routine of an extended message; \<open>was_sent\<close> is the answer of
  \<^verbatim>\<open>pmsg_was_sent(mb)\<close>. Releasing the metadata leaves no trace in the state.
\<close>

definition dq_pmsg_free :: "dq_state \<Rightarrow> bool \<Rightarrow> pmsg_info \<Rightarrow> error + dq_state" where
  "dq_pmsg_free s was_sent pmi =
     (let p = pmi_dq pmi; dq = mem s p in
      if \<not> dq_alive s p (pmi_qid pmi) then Inr s
      else if \<not> pending dq > 0 then Inl Assertion_Failed
      else
        let dq1 = dq\<lparr>pending := pending dq - 1\<rparr> in
        if \<not> was_sent then
          if pmi_node_id pmi \<notin> queried dq1 then Inl Assertion_Failed
          else
            let dq2 = dq1\<lparr>queried := queried dq1 - {pmi_node_id pmi}\<rparr>;
                dq3 = (case results_ev dq2 of
                         Some ev \<Rightarrow>
                           if 0 = pending dq2 then dq2\<lparr>results_ev := cq_resched ev 1\<rparr> else dq2
                       | None \<Rightarrow> dq2)
            in Inr (store s p dq3)
        else
          case dq_get_horizon (uint (pmi_degree pmi)) (uint (pmi_ttl pmi)) of
            Inl err \<Rightarrow> Inl err
          | Inr h \<Rightarrow>
              Inr (store s p (dq1\<lparr>horizon := horizon dq1 + h, up_sent := up_sent dq1 + 1\<rparr>)))"

section \<open>Query state machine\<close>

definition dq_terminate :: "dquery \<Rightarrow> error + dquery" where
  "dq_terminate dq =
     (if flag_set (flags dq) DQ_F_LINGER then Inl Assertion_Failed
      else if results_ev dq \<noteq> None then Inl Assertion_Failed
      else
        let delay = (if flag_set (flags dq) DQ_F_USR_CANCELLED then 1 else DQ_LINGER_TIMEOUT);
            ev = (case expire_ev dq of
                    Some ev \<Rightarrow> cq_resched ev delay
                  | None \<Rightarrow> cq_insert delay Dq_expired)
        in Inr (dq\<lparr>expire_ev := ev,
                   flags := (flags dq AND NOT DQ_F_WAITING) OR DQ_F_LINGER\<rparr>))"

text \<open>
  \<^verbatim>\<open>dq_fill_next_up\<close>: the connected ultrapeers that are writable, have shaken hands, were
  not queried yet and are not flow-controlled, at most \<open>ncount\<close> of them, each with the
  \<open>can_route\<close> answer of the previous vector when it has one for the node.
\<close>

definition dq_fill_next_up :: "env \<Rightarrow> dquery \<Rightarrow> nat \<Rightarrow> next_up list" where
  "dq_fill_next_up e dq ncount =
     map (\<lambda>n. \<lparr>nid = n_id n, node = n,
               can_route =
                 (case nv dq of
                    None \<Rightarrow> - 1
                  | Some old \<Rightarrow>
                      (case find (\<lambda>u. nid u = n_id n) (rev old) of
                         Some u \<Rightarrow> can_route u
                       | None \<Rightarrow> - 1))\<rparr>)
       (take ncount
         (filter (\<lambda>n. is_ultra n \<and> is_writable n \<and> received n \<noteq> 0 \<and> n_id n \<notin> queried dq
                      \<and> \<not> in_tx_flow_control n \<and> hops_flow n \<noteq> 0)
           (node_all_nodes e)))"

definition dq_send_query :: "dq_ptr \<Rightarrow> dquery \<Rightarrow> gnutella_node \<Rightarrow> int \<Rightarrow> error + dquery \<times> pmsg_info" where
  "dq_send_query p dq n t =
     (if n_id n \<in> queried dq then Inl Assertion_Failed
      else if \<not> is_writable n then Inl Assertion_Failed
      else
        let pmi = \<lparr>pmi_node_id = n_id n, pmi_dq = p, pmi_qid = qid dq,
                   pmi_degree = word_of_int (degree n),
                   pmi_ttl = word_of_int (min (max_ttl n) t)\<rparr>;
            dq1 = dq\<lparr>queried := insert (n_id n) (queried dq)\<rparr>
        in if \<not> (uint (pmi_ttl pmi) > 0 \<and> uint (pmi_ttl pmi) \<le> DQ_MAX_TTL)
           then Inl Assertion_Failed
           else Inr (dq1\<lparr>pending := pending dq1 + 1\<rparr>, pmi))"

text \<open>
  The selection loop of \<^verbatim>\<open>dq_send_next\<close> over the sorted candidates: a candidate whose
  TTL is 1, that has a last-hop QRP table and whose QRP rejects the query is skipped; the
  first other one receives the query.
\<close>

fun send_next_loop ::
  "env \<Rightarrow> dq_ptr \<Rightarrow> dquery \<Rightarrow> int \<Rightarrow> next_up list \<Rightarrow> error + dquery \<times> pmsg_info option" where
  "send_next_loop e p dq found [] = Inr (dq, None)"
| "send_next_loop e p dq found (u # us) =
     (case dq_select_ttl e dq (node u) found of
        Inl err \<Rightarrow> Inl err
      | Inr (t, dq1) \<Rightarrow>
          if t = 1 \<and> up_qrp (node u) \<and> \<not> qrp_node_can_route e (node u) (qhv dq1)
          then send_next_loop e p dq1 found us
          else (case dq_send_query p dq1 (node u) t of
                  Inl err \<Rightarrow> Inl err
                | Inr (dq2, pmi) \<Rightarrow> Inr (dq2, Some pmi)))"

definition terminate_query :: "dquery \<Rightarrow> error + dquery \<times> pmsg_info list" where
  "terminate_query dq = (case dq_terminate dq of Inl err \<Rightarrow> Inl err | Inr d \<Rightarrow> Inr (d, []))"

text \<open>
  \<^verbatim>\<open>dq_send_next\<close> returns the query record and the messages it handed to the message
  layer (none, or one).
\<close>

definition dq_send_next :: "env \<Rightarrow> dq_ptr \<Rightarrow> dquery \<Rightarrow> error + dquery \<times> pmsg_info list" where
  "dq_send_next e p dq0 =
     (if results_ev dq0 \<noteq> None then Inl Assertion_Failed
      else if \<not> current_peermode_is_ultra e then terminate_query dq0
      else
        let (res, dq) = dq_kept_results e dq0 in
        if horizon dq \<ge> DQ_MAX_HORIZON \<or> res \<ge> max_results dq then terminate_query dq
        else if results dq + oob_results dq > fin_results dq then terminate_query dq
        else if up_sent dq \<ge> max_connections e - normal_connections e then terminate_query dq
        else if pending dq \<ge> DQ_MAX_PENDING then
          Inr (dq\<lparr>results_ev := cq_insert (result_timeout dq) Dq_results_expired\<rparr>, [])
        else
          let nvec = dq_fill_next_up e dq (unat (max_connections e));
              found = int (length nvec)
          in if found = 0 then terminate_query (dq\<lparr>nv := Some nvec\<rparr>)
             else
               let sorted = qsort_node_mq_qrp_cmp e nvec in
               case send_next_loop e p (dq\<lparr>nv := Some sorted\<rparr>) found sorted of
                 Inl err \<Rightarrow> Inl err
               | Inr (dq3, None) \<Rightarrow> terminate_query dq3
               | Inr (dq3, Some pmi) \<Rightarrow>
                   let dq4 = (if horizon dq3 > DQ_MIN_HORIZON
                                 \<and> res < DQ_LOW_RESULTS * horizon dq3 div DQ_MIN_HORIZON
                              then dq3\<lparr>result_timeout :=
                                         max DQ_MIN_TIMEOUT (result_timeout dq3 - DQ_TIMEOUT_ADJUST)\<rparr>
                              else dq3);
                       timeout = (if pending dq4 > 1
                                  then result_timeout dq4 + (pending dq4 - 1) * DQ_PENDING_TIMEOUT
                                  else result_timeout dq4)
                   in Inr (dq4\<lparr>results_ev := cq_insert timeout Dq_results_expired\<rparr>, [pmi]))"

text \<open>
  \<^verbatim>\<open>dq_free\<close>: both events are cancelled and the record leaves the indices (the statistics
  and the release of the message buffers are not modelled).
\<close>

definition dq_free :: "env \<Rightarrow> dq_state \<Rightarrow> dq_ptr \<Rightarrow> error + dq_state" where
  "dq_free e s p =
     (if p \<notin> dqueries s then Inl Assertion_Failed
      else
        let dq = (mem s p)\<lparr>results_ev := None, expire_ev := None\<rparr>;
            s1 = (if flag_set (flags dq) DQ_F_EXITING then s
                  else s\<lparr>dqueries := dqueries s - {p}\<rparr>);
            r = (if node_id dq \<noteq> NODE_ID_SELF e \<and> \<not> flag_set (flags dq) DQ_F_ID_CLEANING then
                   if flag_set (flags dq) DQ_F_REMOVED then Inl Assertion_Failed
                   else
                     case by_node_id s1 (node_id dq) of
                       None \<Rightarrow> Inl Fatal_Error
                     | Some l \<Rightarrow>
                         if remove1 p l = [] then
                           Inr (s1\<lparr>by_node_id := (by_node_id s1)(node_id dq := None)\<rparr>,
                                dq\<lparr>flags := flags dq OR DQ_F_REMOVED\<rparr>)
                         else
                           Inr (s1\<lparr>by_node_id := (by_node_id s1)(node_id dq \<mapsto> remove1 p l)\<rparr>, dq)
                 else Inr (s1, dq))
        in case r of
             Inl err \<Rightarrow> Inl err
           | Inr (s2, dq2) \<Rightarrow>
               let s3 = (if by_muid s2 (muid dq2) = Some p
                         then s2\<lparr>by_muid := (by_muid s2)(muid dq2 := None)\<rparr> else s2);
                   s4 = (case lmuid dq2 of
                           None \<Rightarrow> s3
                         | Some m \<Rightarrow>
                             if by_leaf_muid s3 m = Some p
                             then s3\<lparr>by_leaf_muid := (by_leaf_muid s3)(m := None)\<rparr> else s3)
               in Inr (store s4 p dq2))"

text \<open>
  \<^verbatim>\<open>dq_results_expired\<close>, the callback of the results event. The time-out of a status
  request is computed in a \<^verbatim>\<open>gint\<close>: \<^verbatim>\<open>(avg + last) / 2000\<close>, then the larger of that and
  \<^verbatim>\<open>DQ_STATUS_TIMEOUT\<close>.
\<close>

definition dq_results_expired :: "env \<Rightarrow> dq_state \<Rightarrow> dq_ptr \<Rightarrow> error + dq_state" where
  "dq_results_expired e s p =
     (if flag_set (flags (mem s p)) DQ_F_LINGER then Inl Assertion_Failed
      else
        let dq1 = (mem s p)\<lparr>results_ev := None\<rparr>;
            was_waiting = flag_set (flags dq1) DQ_F_WAITING;
            (dq2, lg) =
              (if was_waiting then
                 let d = dq1\<lparr>stat_timeouts := stat_timeouts dq1 + 1,
                            flags := flags dq1 AND NOT DQ_F_WAITING\<rparr>
                 in if \<not> flag_set (flags d) DQ_F_GOT_GUIDANCE
                       \<and> stat_timeouts d \<ge> DQ_MAX_STAT_TIMEOUT
                    then (d\<lparr>flags := flags d AND NOT DQ_F_LEAF_GUIDED\<rparr>, [(node_id d, False)])
                    else (d, [])
               else (dq1, []));
            s1 = s\<lparr>leaf_guidance := leaf_guidance s @ lg\<rparr>
        in if \<not> flag_set (flags dq2) (DQ_F_LEAF_GUIDED OR DQ_F_ROUTING_HITS) then
             (case dq_terminate dq2 of Inl err \<Rightarrow> Inl err | Inr d \<Rightarrow> Inr (store s1 p d))
           else if was_waiting \<or> \<not> flag_set (flags dq2) DQ_F_LEAF_GUIDED
                   \<or> up_sent dq2 - last_status dq2 < DQ_STAT_THRESHOLD
                   \<or> (flag_set (flags dq2) DQ_F_ROUTING_HITS
                       \<and> new_results dq2 < DQ_MIN_FOR_GUIDANCE) then
             (case dq_send_next e p dq2 of
                Inl err \<Rightarrow> Inl err
              | Inr (d, msgs) \<Rightarrow> Inr ((store s1 p d)\<lparr>sendq := sendq s1 @ msgs\<rparr>))
           else if node_id dq2 = NODE_ID_SELF e then Inl Assertion_Failed
           else if \<not> alive dq2 then Inl Assertion_Failed
           else
             case node_active_by_id e (node_id dq2) of
               None \<Rightarrow> dq_free e (store s1 p dq2) p
             | Some n \<Rightarrow>
                 let dq3 = dq2\<lparr>flags := flags dq2 OR DQ_F_WAITING\<rparr>;
                     (avg, last) = alive_get_roundtrip_ms e (node_id dq3);
                     timeout = (avg + last) div 2000;
                     timeout' = (if DQ_STATUS_TIMEOUT <s timeout then timeout else DQ_STATUS_TIMEOUT)
                 in Inr ((store s1 p
                            (dq3\<lparr>results_ev := cq_insert timeout' Dq_results_expired\<rparr>))
                          \<lparr>qstat_reqs := qstat_reqs s1 @
                             [(n_id n, case lmuid dq3 of Some m \<Rightarrow> m | None \<Rightarrow> muid dq3)]\<rparr>))"

section \<open>Hit and OOB accounting\<close>

definition dq_count_results ::
  "env \<Rightarrow> dq_state \<Rightarrow> muid_t \<Rightarrow> int \<Rightarrow> 16 word \<Rightarrow> bool \<Rightarrow> error + bool \<times> dq_state" where
  "dq_count_results e s m count status oob =
     (if \<not> count > 0 then Inl Assertion_Failed
      else
        case by_muid s m of
          None \<Rightarrow> Inr (True, s)
        | Some p \<Rightarrow>
            let dq = mem s p in
            if \<not> oob \<and>
               ((flag_set status (ST_FIREWALL e)
                  \<and> query_flags dq AND (QUERY_SPEED_FIREWALLED e OR QUERY_SPEED_FW_TO_FW e)
                      = QUERY_SPEED_FIREWALLED e)
                \<or> (status AND (ST_FIREWALL e OR ST_FW2FW e) = ST_FIREWALL e
                    \<and> flag_set (query_flags dq) (QUERY_SPEED_FIREWALLED e)))
            then Inr (False, s)
            else
              let dq1 = (if flag_set (flags dq) DQ_F_LINGER then
                           dq\<lparr>linger_results := linger_results dq + word_of_int count\<rparr>
                         else if oob then
                           dq\<lparr>oob_results := oob_results dq + word_of_int count\<rparr>
                         else
                           dq\<lparr>results := results dq + word_of_int count,
                              new_results := new_results dq + word_of_int count\<rparr>);
                  dq2 = (if dq_debug e > 19 \<and> node_id dq1 = NODE_ID_SELF e
                         then dq1\<lparr>kept_results := search_get_kept_results_by_handle e (sh dq1)\<rparr>
                         else dq1)
              in Inr (\<not> flag_set (flags dq2) DQ_F_USR_CANCELLED, store s p dq2))"

definition dq_got_results ::
  "env \<Rightarrow> dq_state \<Rightarrow> muid_t \<Rightarrow> 32 word \<Rightarrow> 32 word \<Rightarrow> error + bool \<times> dq_state" where
  "dq_got_results e s m count status = dq_count_results e s m (sint count) (ucast status) False"

definition dq_oob_results_ind :: "env \<Rightarrow> dq_state \<Rightarrow> muid_t \<Rightarrow> int \<Rightarrow> error + bool \<times> dq_state" where
  "dq_oob_results_ind e s m count = dq_count_results e s m count 0 True"

definition INT_MAX :: int where "INT_MAX = 2147483647"

definition dq_oob_results_got :: "dq_state \<Rightarrow> muid_t \<Rightarrow> 32 word \<Rightarrow> error + dq_state" where
  "dq_oob_results_got s m count =
     (if \<not> (count > 0 \<and> uint count \<le> INT_MAX) then Inl Assertion_Failed
      else
        case by_muid s m of
          None \<Rightarrow> Inr s
        | Some p \<Rightarrow>
            let dq = mem s p in
            Inr (store s p (if oob_results dq > count
                            then dq\<lparr>oob_results := oob_results dq - count\<rparr>
                            else dq\<lparr>oob_results := 0\<rparr>)))"

definition dq_get_results_wanted :: "env \<Rightarrow> dq_state \<Rightarrow> muid_t \<Rightarrow> 32 word option \<times> dq_state" where
  "dq_get_results_wanted e s m =
     (case by_muid s m of
        None \<Rightarrow> (None, s)
      | Some p \<Rightarrow>
          let dq = mem s p in
          if flag_set (flags dq) DQ_F_USR_CANCELLED then (Some 0, s)
          else
            let (kept, dq1) = dq_kept_results e dq;
                wanted = (if kept < max_results dq1 then max_results dq1 - kept
                          else if flag_set (flags dq1) DQ_F_GOT_GUIDANCE
                                  \<and> kept_results dq1 < fin_results dq1 then 1
                          else 0)
            in (Some wanted, store s p dq1))"

section \<open>Guidance protocol\<close>

definition dq_got_query_status ::
  "env \<Rightarrow> dq_state \<Rightarrow> muid_t \<Rightarrow> node_id_t \<Rightarrow> 16 word \<Rightarrow> error + dq_state" where
  "dq_got_query_status e s m sender kept =
     (case (case by_muid s m of Some p \<Rightarrow> Some p | None \<Rightarrow> by_leaf_muid s m) of
        None \<Rightarrow> Inr s
      | Some p \<Rightarrow>
          let dq = mem s p in
          if node_id dq \<noteq> sender then Inr s
          else
            let dq1 = dq\<lparr>kept_results := ucast kept,
                         flags := flags dq OR DQ_F_GOT_GUIDANCE,
                         last_status := up_sent dq,
                         new_results := 0\<rparr>;
                (dq2, lg) =
                  (if \<not> flag_set (flags dq1) DQ_F_WAITING
                      \<and> \<not> flag_set (flags dq1) DQ_F_LEAF_GUIDED
                   then (dq1\<lparr>flags := flags dq1 OR DQ_F_LEAF_GUIDED\<rparr>, [(sender, True)])
                   else (dq1, []));
                s1 = s\<lparr>leaf_guidance := leaf_guidance s @ lg\<rparr>
            in if kept = 0xffff then
                 let dq3 = dq2\<lparr>flags := flags dq2 OR DQ_F_USR_CANCELLED\<rparr> in
                 if \<not> flag_set (flags dq3) DQ_F_LINGER then
                   (case dq_terminate (dq3\<lparr>results_ev := None\<rparr>) of
                      Inl err \<Rightarrow> Inl err
                    | Inr d \<Rightarrow> Inr (store s1 p d))
                 else Inr (store s1 p dq3)
               else if flag_set (flags dq2) DQ_F_WAITING then
                 if results_ev dq2 = None then Inl Assertion_Failed
                 else
                   (case dq_send_next e p
                           (dq2\<lparr>results_ev := None, flags := flags dq2 AND NOT DQ_F_WAITING\<rparr>) of
                      Inl err \<Rightarrow> Inl err
                    | Inr (d, msgs) \<Rightarrow> Inr ((store s1 p d)\<lparr>sendq := sendq s1 @ msgs\<rparr>))
               else Inr (store s1 p dq2))"

text \<open>
  A run of hits for one MUID: \<^verbatim>\<open>dq_got_results\<close> is called for each hit (count and status
  flags) in order, and the forwarding decisions are collected.
\<close>

fun dq_got_results_run ::
  "env \<Rightarrow> dq_state \<Rightarrow> muid_t \<Rightarrow> (32 word \<times> 32 word) list \<Rightarrow> error + bool list \<times> dq_state" where
  "dq_got_results_run e s m [] = Inr ([], s)"
| "dq_got_results_run e s m ((c, st) # hs) =
     (case dq_got_results e s m c st of
        Inl err \<Rightarrow> Inl err
      | Inr (fwd, s1) \<Rightarrow>
          (case dq_got_results_run e s1 m hs of
             Inl err \<Rightarrow> Inl err
           | Inr (fs, s2) \<Rightarrow> Inr (fwd # fs, s2)))"

section \<open>A concrete engine\<close>

text \<open>
  A small configuration on which the theorems below are evaluated: an ultrapeer with one
  connected ultrapeer neighbour (node 11, degree 6, maximum TTL 4), and one query of the
  leaf node 7 (whose alive pings took 50 s on average and at last), stored at address 0,
  that has one message in flight to node 11.
\<close>

definition example_node :: gnutella_node where
  "example_node =
     \<lparr>n_id = 11, degree = 6, max_ttl = 4, received = 1, hops_flow = 3, is_ultra = True,
      is_writable = True, in_tx_flow_control = False, up_qrp = False\<rparr>"

definition example_env :: env where
  "example_env =
     \<lparr>NODE_ID_SELF = 0,
      search_get_kept_results_by_handle = (\<lambda>h. 0),
      current_peermode_is_ultra = True,
      max_connections = 40,
      normal_connections = 0,
      node_all_nodes = [example_node],
      node_active_by_id =
        (\<lambda>i. if i = 11 then Some example_node
             else if i = 7 then Some (example_node\<lparr>n_id := 7, is_ultra := False\<rparr>)
             else None),
      qrp_node_can_route = (\<lambda>n q. True),
      qsort_node_mq_qrp_cmp = (\<lambda>v. v),
      alive_get_roundtrip_ms = (\<lambda>i. (50000, 50000)),
      dq_debug = 0,
      ST_FIREWALL = 1,
      ST_FW2FW = 2,
      QUERY_SPEED_FIREWALLED = 4,
      QUERY_SPEED_FW_TO_FW = 8\<rparr>"

definition example_query :: dquery where
  "example_query =
     \<lparr>node_id = 7, qid = 1, flags = DQ_F_ROUTING_HITS, sh = 0, muid = [1, 2, 3], qhv = 0,
      queried = {11}, lmuid = None, query_flags = 0, ttl = 4, horizon = 2, up_sent = 1,
      last_status = 0, pending = 1, max_results = 50, fin_results = 1000, oob_results = 5,
      results = 10, linger_results = 0, new_results = 10, kept_results = 0,
      result_timeout = 3700, stat_timeouts = 0,
      expire_ev = Some \<lparr>ev_delay = 600000, ev_fn = Dq_expired\<rparr>,
      results_ev = Some \<lparr>ev_delay = 3700, ev_fn = Dq_results_expired\<rparr>,
      alive = True, nv = None\<rparr>"

definition example_state :: "dquery \<Rightarrow> dq_state" where
  "example_state dq =
     \<lparr>mem = (\<lambda>p. dq), dqueries = {0}, by_node_id = [7 \<mapsto> [0]], by_muid = [[1, 2, 3] \<mapsto> 0],
      by_leaf_muid = Map.empty, sendq = [], qstat_reqs = [], leaf_guidance = []\<rparr>"

definition example_pmi :: pmsg_info where
  "example_pmi = \<lparr>pmi_node_id = 11, pmi_dq = 0, pmi_qid = 1, pmi_degree = 6, pmi_ttl = 4\<rparr>"

section \<open>Properties of the horizon model\<close>

lemma fill_row_inv:
  assumes "n \<le> length row" "0 < length row"
  shows "length (foldl (\<lambda>r j. r[j := r ! (j - 1) + i ^ j]) (row[0 := 1]) [1..<n]) = length row
       \<and> (\<forall>j < max n 1. foldl (\<lambda>r j. r[j := r ! (j - 1) + i ^ j]) (row[0 := 1]) [1..<n] ! j
              = (\<Sum>k\<le>j. i ^ k))"
  using assms
proof (induction n)
  case 0
  then show ?case by simp
next
  case (Suc n)
  show ?case
  proof (cases "n = 0")
    case True
    with Suc.prems show ?thesis by simp
  next
    case False
    let ?r = "foldl (\<lambda>r j. r[j := r ! (j - 1) + i ^ j]) (row[0 := 1]) [1..<n]"
    from False have u: "[1..<Suc n] = [1..<n] @ [n]" by simp
    from Suc False have ih: "length ?r = length row" "\<forall>j < n. ?r ! j = (\<Sum>k\<le>j. i ^ k)"
      by auto
    have "n - 1 < n" using False by simp
    with ih(2) have p: "?r ! (n - 1) = (\<Sum>k\<le>n - 1. i ^ k)"
      by blast
    have s: "(\<Sum>k\<le>n - 1. i ^ k) + i ^ n = (\<Sum>k\<le>n. i ^ k)"
      using False by (cases n) simp_all
    show ?thesis
      unfolding u foldl_append
      using ih p s Suc.prems False
      by (auto simp: nth_list_update less_Suc_eq)
  qed
qed

lemma fill_row_nth:
  assumes "length row = MAX_TTL" "j < MAX_TTL"
  shows "fill_row i row ! j = (\<Sum>k\<le>j. i ^ k)"
  using fill_row_inv[of MAX_TTL row i] assms by (simp add: fill_row_def MAX_TTL_def)

lemma fill_hosts_inv:
  assumes "n \<le> length h"
  shows "length (foldl (\<lambda>t i. t[i := fill_row i (t ! i)]) h [0..<n]) = length h
       \<and> (\<forall>i < length h. foldl (\<lambda>t i. t[i := fill_row i (t ! i)]) h [0..<n] ! i
             = (if i < n then fill_row i (h ! i) else h ! i))"
  using assms
proof (induction n)
  case 0
  then show ?case by simp
next
  case (Suc n)
  then show ?case by (auto simp: nth_list_update less_Suc_eq)
qed

lemma hosts_nth:
  assumes "i < MAX_DEGREE" "j < MAX_TTL"
  shows "hosts ! i ! j = (\<Sum>k\<le>j. i ^ k)"
proof -
  let ?h0 = "replicate MAX_DEGREE (replicate MAX_TTL (0::nat))"
  have "hosts ! i = fill_row i (?h0 ! i)"
    using fill_hosts_inv[of MAX_DEGREE ?h0] assms(1)
    by (simp add: hosts_def fill_hosts_def)
  then show ?thesis using assms by (simp add: fill_row_nth)
qed

lemma geom_le: "(\<Sum>k\<le>j. (i::nat) ^ k) \<le> (\<Sum>k\<le>j. i' ^ k)" if "i \<le> i'"
  by (rule sum_mono) (simp add: power_mono that)

lemma geom_bound:
  assumes "i < MAX_DEGREE" "j < MAX_TTL"
  shows "(\<Sum>k\<le>j. (i::nat) ^ k) \<le> 5884901"
proof -
  have "(\<Sum>k\<le>j. i ^ k) \<le> (\<Sum>k\<le>j. (49::nat) ^ k)"
    using assms by (intro geom_le) (simp add: MAX_DEGREE_def)
  also have "\<dots> \<le> (\<Sum>k\<le>4. (49::nat) ^ k)"
    using assms by (intro sum_mono2) (auto simp: MAX_TTL_def)
  also have "\<dots> = 5884901"
  proof -
    have "{..4::nat} = {0, 1, 2, 3, 4}" by auto
    then show ?thesis by simp
  qed
  finally show ?thesis .
qed

text \<open>The value a table entry contributes: the floor of the fuzzed sum of powers.\<close>

lemma fuzzy_range:
  assumes "i < MAX_DEGREE" "j < MAX_TTL"
  shows "0 \<le> \<lfloor>of_nat (\<Sum>k\<le>j. i ^ k) * DQ_FUZZY_FACTOR ^ j\<rfloor>"
    and "\<lfloor>of_nat (\<Sum>k\<le>j. i ^ k) * DQ_FUZZY_FACTOR ^ j\<rfloor> < 2 ^ 32"
proof -
  let ?s = "of_nat (\<Sum>k\<le>j. i ^ k) :: real"
  have f: "0 \<le> DQ_FUZZY_FACTOR ^ j" "DQ_FUZZY_FACTOR ^ j \<le> 1"
    by (simp_all add: DQ_FUZZY_FACTOR_def power_le_one)
  have nn: "0 \<le> ?s"
    by (rule of_nat_0_le_iff)
  have "0 \<le> ?s * DQ_FUZZY_FACTOR ^ j"
    using f nn by (intro mult_nonneg_nonneg)
  then show "0 \<le> \<lfloor>?s * DQ_FUZZY_FACTOR ^ j\<rfloor>"
    by (simp only: zero_le_floor)
  have "?s * DQ_FUZZY_FACTOR ^ j \<le> ?s * 1"
    using f nn by (intro mult_left_mono)
  also have "\<dots> \<le> of_nat 5884901"
    using geom_bound[OF assms] unfolding mult_1_right of_nat_le_iff .
  finally have "\<lfloor>?s * DQ_FUZZY_FACTOR ^ j\<rfloor> \<le> \<lfloor>of_nat 5884901 :: real\<rfloor>"
    by (rule floor_mono)
  then show "\<lfloor>?s * DQ_FUZZY_FACTOR ^ j\<rfloor> < 2 ^ 32" by simp
qed

lemma dq_get_horizon_eq:
  assumes "0 < dg" "0 < t"
  shows "dq_get_horizon dg t =
           Inr (word_of_int \<lfloor>of_nat (\<Sum>k\<le>nat (min t 5 - 1). nat (min dg 50 - 1) ^ k)
                              * DQ_FUZZY_FACTOR ^ nat (min t 5 - 1)\<rfloor>)"
proof -
  have "nat (min dg 50 - 1) < MAX_DEGREE" "nat (min t 5 - 1) < MAX_TTL"
    using assms by (simp_all add: MAX_DEGREE_def MAX_TTL_def)
  then have "hosts ! nat (min dg 50 - 1) ! nat (min t 5 - 1)
               = (\<Sum>k\<le>nat (min t 5 - 1). nat (min dg 50 - 1) ^ k)"
    by (rule hosts_nth)
  then show ?thesis
    using assms
    by (simp only: dq_get_horizon_def Let_def MAX_DEGREE_def MAX_TTL_def of_nat_numeral)
       simp
qed

lemma uint_horizon:
  assumes "0 < dg" "0 < t" "dq_get_horizon dg t = Inr h"
  shows "uint h = \<lfloor>of_nat (\<Sum>k\<le>nat (min t 5 - 1). nat (min dg 50 - 1) ^ k)
                    * DQ_FUZZY_FACTOR ^ nat (min t 5 - 1)\<rfloor>"
proof -
  let ?i = "nat (min dg 50 - 1)" and ?j = "nat (min t 5 - 1)"
  let ?v = "\<lfloor>of_nat (\<Sum>k\<le>?j. ?i ^ k) * DQ_FUZZY_FACTOR ^ ?j\<rfloor>"
  have "?i < MAX_DEGREE" "?j < MAX_TTL"
    using assms by (simp_all add: MAX_DEGREE_def MAX_TTL_def)
  from fuzzy_range[OF this] have "take_bit 32 ?v = ?v"
    by (simp add: take_bit_int_eq_self)
  moreover have "h = word_of_int ?v"
    using assms dq_get_horizon_eq[of dg t] by simp
  ultimately show ?thesis by (simp add: uint_word_of_int_eq)
qed

lemma fuzzy_mono_degree:
  assumes "i \<le> i'"
  shows "\<lfloor>of_nat (\<Sum>k\<le>j. i ^ k) * DQ_FUZZY_FACTOR ^ j\<rfloor>
           \<le> \<lfloor>of_nat (\<Sum>k\<le>j. i' ^ k) * DQ_FUZZY_FACTOR ^ j\<rfloor>"
proof -
  have "(of_nat (\<Sum>k\<le>j. i ^ k) :: real) \<le> of_nat (\<Sum>k\<le>j. i' ^ k)"
    by (rule of_nat_mono[OF geom_le[OF assms]])
  then show ?thesis
    by (intro floor_mono mult_right_mono) (simp_all add: DQ_FUZZY_FACTOR_def)
qed

lemma geom_le_top:
  assumes "1 \<le> (i::nat)"
  shows "(\<Sum>k\<le>j. i ^ k) \<le> (j + 1) * i ^ j"
proof -
  have "(\<Sum>k\<le>j. i ^ k) \<le> (\<Sum>k\<le>j. i ^ j)"
    using assms by (intro sum_mono power_increasing) simp_all
  then show ?thesis by simp
qed

lemma fuzzy_step:
  assumes "1 \<le> i" "j \<le> 3"
  shows "\<lfloor>of_nat (\<Sum>k\<le>j. i ^ k) * DQ_FUZZY_FACTOR ^ j\<rfloor>
           \<le> \<lfloor>of_nat (\<Sum>k\<le>Suc j. i ^ k) * DQ_FUZZY_FACTOR ^ Suc j\<rfloor>"
proof -
  let ?s = "\<Sum>k\<le>j. i ^ k"
  have "?s \<le> (j + 1) * i ^ j" by (rule geom_le_top[OF assms(1)])
  also have "\<dots> \<le> 4 * i ^ j" using assms(2) by simp
  also have "\<dots> \<le> 4 * i ^ Suc j" using assms(1) by simp
  finally have "5 * ?s \<le> 4 * (?s + i ^ Suc j)" by simp
  then have "(of_nat (5 * ?s) :: real) \<le> of_nat (4 * (?s + i ^ Suc j))"
    by (rule of_nat_mono)
  then have "(5 * of_nat ?s :: real) \<le> 4 * of_nat (?s + i ^ Suc j)"
    by (simp only: of_nat_mult of_nat_numeral)
  then have "(of_nat ?s :: real) \<le> of_nat (?s + i ^ Suc j) * (4 / 5)"
    by simp
  then have "(of_nat ?s :: real) * (4 / 5) ^ j \<le> of_nat (?s + i ^ Suc j) * (4 / 5) * (4 / 5) ^ j"
    by (intro mult_right_mono) simp_all
  then show ?thesis
    unfolding DQ_FUZZY_FACTOR_def
    by (intro floor_mono) (simp add: mult.assoc)
qed

lemma fuzzy_mono_ttl:
  assumes "1 \<le> i" "j \<le> j'" "j' \<le> 4"
  shows "\<lfloor>of_nat (\<Sum>k\<le>j. i ^ k) * DQ_FUZZY_FACTOR ^ j\<rfloor>
           \<le> \<lfloor>of_nat (\<Sum>k\<le>j'. i ^ k) * DQ_FUZZY_FACTOR ^ j'\<rfloor>"
  using assms(2,3)
proof (induction j' rule: dec_induct)
  case base
  show ?case by simp
next
  case (step n)
  have "\<lfloor>of_nat (\<Sum>k\<le>n. i ^ k) * DQ_FUZZY_FACTOR ^ n\<rfloor>
          \<le> \<lfloor>of_nat (\<Sum>k\<le>Suc n. i ^ k) * DQ_FUZZY_FACTOR ^ Suc n\<rfloor>"
    using step by (intro fuzzy_step assms(1)) simp
  moreover have "\<lfloor>of_nat (\<Sum>k\<le>j. i ^ k) * DQ_FUZZY_FACTOR ^ j\<rfloor>
          \<le> \<lfloor>of_nat (\<Sum>k\<le>n. i ^ k) * DQ_FUZZY_FACTOR ^ n\<rfloor>"
    using step by simp
  ultimately show ?case by (rule order_trans[rotated])
qed

lemma dq_get_horizon_1:
  assumes "0 < dg"
  shows "dq_get_horizon dg 1 = Inr 1"
  using assms by (simp add: dq_get_horizon_eq)

text \<open>
  Claim C4, amended. For every degree and TTL of at least 1, \<^verbatim>\<open>dq_get_horizon\<close> returns the
  floor of \<open>0.80 ^ (ttl - 1)\<close> times the sum of \<open>(degree - 1) ^ i\<close> for \<open>i\<close> from 0 to
  \<open>ttl - 1\<close>, the degree clamped to at most 50 and the TTL to at most 5: the powers summed
  are those of the degree minus one, as the comment of the table says.
\<close>

theorem dq_get_horizon_formula:
  assumes "1 \<le> dg" "1 \<le> t"
  shows "\<exists>h. dq_get_horizon dg t = Inr h \<and>
           uint h = \<lfloor>(80 / 100 :: real) ^ (nat (min t 5) - 1)
                      * of_nat (\<Sum>i<nat (min t 5). (nat (min dg 50) - 1) ^ i)\<rfloor>"
proof -
  have pos: "0 < dg" "0 < t" using assms by simp_all
  obtain h where h: "dq_get_horizon dg t = Inr h"
    using dq_get_horizon_eq[OF pos] by blast
  have j: "nat (min t 5 - 1) = nat (min t 5) - 1" and i: "nat (min dg 50 - 1) = nat (min dg 50) - 1"
    by simp_all
  have "{..<nat (min t 5)} = {..nat (min t 5) - 1}"
    using pos by auto
  then have "(\<Sum>i<nat (min t 5). (nat (min dg 50) - 1) ^ i)
               = (\<Sum>k\<le>nat (min t 5) - 1. (nat (min dg 50) - 1) ^ k)"
    by simp
  then show ?thesis
    using uint_horizon[OF pos h] h
    by (simp only: i j DQ_FUZZY_FACTOR_def mult.commute) blast
qed

text \<open>Claim C4, witness: degree 6 and TTL 4 give \<open>\<lfloor>0.512 * 156\<rfloor> = 79\<close>.\<close>

theorem dq_get_horizon_formula_witness:
  "(1::int) \<le> 6 \<and> (1::int) \<le> 4 \<and> dq_get_horizon 6 4 = Inr 79"
proof -
  have s: "{..<4::nat} = {0, 1, 2, 3}" by auto
  obtain h where h: "dq_get_horizon 6 4 = Inr h"
    and u: "uint h = \<lfloor>(80 / 100 :: real) ^ (nat (min 4 5) - 1)
                      * of_nat (\<Sum>i<nat (min 4 5). (nat (min 6 50) - 1) ^ i)\<rfloor>"
    using dq_get_horizon_formula[of 6 4] by auto
  from u have "uint h = 79" by (simp add: s power_divide)
  then have "h = 79" by (metis uint_numeral word_of_int_uint word_of_int_numeral)
  with h show ?thesis by simp
qed

text \<open>
  Claim C4 as stated fails: with degree 2 and TTL 2 the code gives \<open>\<lfloor>0.8 * (1 + 1)\<rfloor> = 1\<close>,
  the sum of the powers of the degree itself would give \<open>\<lfloor>0.8 * (1 + 2)\<rfloor> = 2\<close>.
\<close>

theorem dq_get_horizon_counterexample:
  "dq_get_horizon 2 2 = Inr 1 \<and> spec_horizon 2 2 = 2"
proof -
  have s: "{..<2::nat} = {0, 1}" by auto
  have "dq_get_horizon 2 2 = Inr 1"
    by (simp add: dq_get_horizon_eq DQ_FUZZY_FACTOR_def)
  moreover have "spec_horizon 2 2 = 2"
    by (simp add: spec_horizon_def s)
  ultimately show ?thesis by simp
qed

text \<open>
  Claim C6, amended. The horizon is non-decreasing in the degree for a fixed TTL; it is
  non-decreasing in the TTL for a fixed degree of at least 2; and it is 1 at TTL 1 for
  every degree of at least 1. (The statement holds for all positive inputs, the clamping
  included, hence over the tabulated domain.)
\<close>

theorem horizon_monotone:
  assumes "1 \<le> d" "d \<le> d'" "1 \<le> t" "t \<le> t'"
  shows "\<exists>h1 h2 h3. dq_get_horizon d t = Inr h1 \<and> dq_get_horizon d' t = Inr h2
            \<and> dq_get_horizon d t' = Inr h3
            \<and> h1 \<le> h2 \<and> (2 \<le> d \<longrightarrow> h1 \<le> h3) \<and> dq_get_horizon d 1 = Inr 1"
proof -
  have pos: "0 < d" "0 < d'" "0 < t" "0 < t'" using assms by simp_all
  obtain h1 where h1: "dq_get_horizon d t = Inr h1"
    using dq_get_horizon_eq[OF pos(1,3)] by blast
  obtain h2 where h2: "dq_get_horizon d' t = Inr h2"
    using dq_get_horizon_eq[OF pos(2,3)] by blast
  obtain h3 where h3: "dq_get_horizon d t' = Inr h3"
    using dq_get_horizon_eq[OF pos(1,4)] by blast
  note u1 = uint_horizon[OF pos(1,3) h1]
  note u2 = uint_horizon[OF pos(2,3) h2]
  note u3 = uint_horizon[OF pos(1,4) h3]
  have "nat (min d 50 - 1) \<le> nat (min d' 50 - 1)"
    using assms by simp
  then have "uint h1 \<le> uint h2"
    unfolding u1 u2 by (rule fuzzy_mono_degree)
  then have a: "h1 \<le> h2" by (simp add: word_le_def)
  have b: "h1 \<le> h3" if "2 \<le> d"
  proof -
    have "1 \<le> nat (min d 50 - 1)" "nat (min t 5 - 1) \<le> nat (min t' 5 - 1)"
      "nat (min t' 5 - 1) \<le> 4"
      using that assms by simp_all
    then have "uint h1 \<le> uint h3"
      unfolding u1 u3 by (rule fuzzy_mono_ttl)
    then show ?thesis by (simp add: word_le_def)
  qed
  show ?thesis
    using h1 h2 h3 a b dq_get_horizon_1[OF pos(1)] by blast
qed

text \<open>Claim C6, witness: degrees 3 and 6, TTLs 2 and 4.\<close>

theorem horizon_monotone_witness:
  "(1::int) \<le> 3 \<and> (3::int) \<le> 6 \<and> (1::int) \<le> 2 \<and> (2::int) \<le> 4
     \<and> dq_get_horizon 3 2 = Inr 2 \<and> dq_get_horizon 6 2 = Inr 4 \<and> dq_get_horizon 3 4 = Inr 7
     \<and> (2::32 word) \<le> 4 \<and> (2::32 word) \<le> 7 \<and> dq_get_horizon 3 1 = Inr 1"
proof -
  have s: "{..3::nat} = {0, 1, 2, 3}" "{..1::nat} = {0, 1}" by auto
  have v: "dq_get_horizon 3 2 = Inr 2" "dq_get_horizon 6 2 = Inr 4" "dq_get_horizon 3 4 = Inr 7"
    by (simp_all add: dq_get_horizon_eq DQ_FUZZY_FACTOR_def s power_divide)
  show ?thesis
    using horizon_monotone[of 3 6 2 4] v by simp
qed

text \<open>
  Claim C6 as stated fails at degree 1, whose table row is constantly 1: the horizon is 1
  at TTL 1 and \<open>\<lfloor>0.8\<rfloor> = 0\<close> at TTL 2.
\<close>

theorem horizon_monotone_counterexample:
  "dq_get_horizon 1 1 = Inr 1 \<and> dq_get_horizon 1 2 = Inr 0"
proof -
  have s: "{..1::nat} = {0, 1}" by auto
  show ?thesis
    by (simp add: dq_get_horizon_eq DQ_FUZZY_FACTOR_def s)
qed

section \<open>Properties of the send bookkeeper\<close>

lemmas flag_defs =
  DQ_F_ID_CLEANING_def DQ_F_LINGER_def DQ_F_LEAF_GUIDED_def DQ_F_WAITING_def
  DQ_F_GOT_GUIDANCE_def DQ_F_USR_CANCELLED_def DQ_F_ROUTING_HITS_def DQ_F_EXITING_def
  DQ_F_REMOVED_def

lemma flag_set_or_same:
  "m \<noteq> 0 \<Longrightarrow> flag_set (f OR m) m"
  by (simp add: flag_set_def bit.conj_disj_distrib2)

lemma flag_set_or_keep:
  "flag_set f m \<Longrightarrow> flag_set (f OR m') m"
  unfolding flag_set_def
  by (metis bit.conj_disj_distrib2 or_eq_0_iff)

text \<open>
  Claim C3. A free-hook invocation whose query record is no longer in the table of alive
  queries, or whose record bears another generation id than the one captured in the send
  metadata, returns the state unchanged.
\<close>

theorem dq_pmsg_free_stale:
  assumes "pmi_dq pmi \<notin> dqueries s \<or> qid (mem s (pmi_dq pmi)) \<noteq> pmi_qid pmi"
  shows "dq_pmsg_free s was_sent pmi = Inr s"
  using assms by (auto simp: dq_pmsg_free_def dq_alive_def Let_def)

text \<open>Claim C3, witness: the metadata captured generation 9, the record at the address has 1.\<close>

theorem dq_pmsg_free_stale_witness:
  "qid (mem (example_state example_query) (pmi_dq (example_pmi\<lparr>pmi_qid := 9\<rparr>)))
           \<noteq> pmi_qid (example_pmi\<lparr>pmi_qid := 9\<rparr>)
   \<and> dq_pmsg_free (example_state example_query) True (example_pmi\<lparr>pmi_qid := 9\<rparr>)
       = Inr (example_state example_query)"
proof -
  have n: "qid (mem (example_state example_query) (pmi_dq (example_pmi\<lparr>pmi_qid := 9\<rparr>)))
           \<noteq> pmi_qid (example_pmi\<lparr>pmi_qid := 9\<rparr>)"
    by (simp add: example_pmi_def example_state_def example_query_def)
  then have h: "pmi_dq (example_pmi\<lparr>pmi_qid := 9\<rparr>) \<notin> dqueries (example_state example_query)
      \<or> qid (mem (example_state example_query) (pmi_dq (example_pmi\<lparr>pmi_qid := 9\<rparr>)))
           \<noteq> pmi_qid (example_pmi\<lparr>pmi_qid := 9\<rparr>)"
    by (rule disjI2)
  show ?thesis
    using n dq_pmsg_free_stale[OF h] by (rule conjI)
qed

lemma store_simps:
  "mem (store s p dq) p = dq"
  "q \<noteq> p \<Longrightarrow> mem (store s p dq) q = mem s q"
  "dqueries (store s p dq) = dqueries s"
  "by_muid (store s p dq) = by_muid s"
  "by_leaf_muid (store s p dq) = by_leaf_muid s"
  "by_node_id (store s p dq) = by_node_id s"
  "sendq (store s p dq) = sendq s"
  "qstat_reqs (store s p dq) = qstat_reqs s"
  "leaf_guidance (store s p dq) = leaf_guidance s"
  by (simp_all add: store_def)

text \<open>
  Claim C2. For a message whose query is alive with the captured generation id (and
  whose assertions hold: a pending message is accounted, a dropped target is in the
  queried set, degree and TTL of a sent message are positive), the free hook decrements
  \<open>pending\<close> by one and leaves every other query alone. A dropped message removes the
  target from the queried set and, when \<open>pending\<close> thereby reaches zero and a results
  event is armed, reschedules that event to 1 ms; a sent message increments \<open>up_sent\<close> and
  adds the horizon of the target's degree and TTL to the horizon of the query.
\<close>

theorem dq_pmsg_free_alive:
  assumes alive: "pmi_dq pmi \<in> dqueries s" "qid (mem s (pmi_dq pmi)) = pmi_qid pmi"
    and pend: "0 < pending (mem s (pmi_dq pmi))"
    and dropped: "\<not> was_sent \<Longrightarrow> pmi_node_id pmi \<in> queried (mem s (pmi_dq pmi))"
    and sent: "was_sent \<Longrightarrow> 0 < pmi_degree pmi \<and> 0 < pmi_ttl pmi"
  shows "\<exists>s'. dq_pmsg_free s was_sent pmi = Inr s'
           \<and> dqueries s' = dqueries s
           \<and> (\<forall>q. q \<noteq> pmi_dq pmi \<longrightarrow> mem s' q = mem s q)
           \<and> pending (mem s' (pmi_dq pmi)) = pending (mem s (pmi_dq pmi)) - 1
           \<and> (\<not> was_sent \<longrightarrow>
                 queried (mem s' (pmi_dq pmi)) = queried (mem s (pmi_dq pmi)) - {pmi_node_id pmi}
               \<and> up_sent (mem s' (pmi_dq pmi)) = up_sent (mem s (pmi_dq pmi))
               \<and> horizon (mem s' (pmi_dq pmi)) = horizon (mem s (pmi_dq pmi))
               \<and> results_ev (mem s' (pmi_dq pmi)) =
                   (if pending (mem s (pmi_dq pmi)) = 1
                    then map_option (\<lambda>ev. ev\<lparr>ev_delay := 1\<rparr>) (results_ev (mem s (pmi_dq pmi)))
                    else results_ev (mem s (pmi_dq pmi))))
           \<and> (was_sent \<longrightarrow>
                 (\<exists>h. dq_get_horizon (uint (pmi_degree pmi)) (uint (pmi_ttl pmi)) = Inr h
                    \<and> horizon (mem s' (pmi_dq pmi)) = horizon (mem s (pmi_dq pmi)) + h)
               \<and> up_sent (mem s' (pmi_dq pmi)) = up_sent (mem s (pmi_dq pmi)) + 1
               \<and> queried (mem s' (pmi_dq pmi)) = queried (mem s (pmi_dq pmi))
               \<and> results_ev (mem s' (pmi_dq pmi)) = results_ev (mem s (pmi_dq pmi)))"
proof (cases was_sent)
  case True
  with sent have pos: "0 < uint (pmi_degree pmi)" "0 < uint (pmi_ttl pmi)"
    by (simp_all add: word_less_def)
  obtain h where h: "dq_get_horizon (uint (pmi_degree pmi)) (uint (pmi_ttl pmi)) = Inr h"
    using dq_get_horizon_eq[OF pos] by blast
  show ?thesis
    using True alive pend h
    by (simp add: dq_pmsg_free_def dq_alive_def Let_def store_simps)
next
  case False
  have z: "pending (mem s (pmi_dq pmi)) - 1 = 0 \<longleftrightarrow> pending (mem s (pmi_dq pmi)) = 1"
    by (metis diff_add_cancel add_0 diff_self)
  show ?thesis
    using False alive pend dropped[OF False]
    by (auto simp: dq_pmsg_free_def dq_alive_def Let_def store_simps cq_resched_def z
             split: option.splits)
qed

text \<open>Claim C2, witness: the message in flight of the example query, dropped and sent.\<close>

theorem dq_pmsg_free_alive_witness:
  "pmi_dq example_pmi \<in> dqueries (example_state example_query)
   \<and> qid (mem (example_state example_query) (pmi_dq example_pmi)) = pmi_qid example_pmi
   \<and> 0 < pending (mem (example_state example_query) (pmi_dq example_pmi))
   \<and> pmi_node_id example_pmi \<in> queried (mem (example_state example_query) (pmi_dq example_pmi))
   \<and> 0 < pmi_degree example_pmi \<and> 0 < pmi_ttl example_pmi
   \<and> (case dq_pmsg_free (example_state example_query) False example_pmi of
         Inl err \<Rightarrow> False
       | Inr s' \<Rightarrow> pending (mem s' 0) = 0 \<and> queried (mem s' 0) = {} \<and> up_sent (mem s' 0) = 1
                   \<and> horizon (mem s' 0) = 2
                   \<and> results_ev (mem s' 0) = Some \<lparr>ev_delay = 1, ev_fn = Dq_results_expired\<rparr>)
   \<and> (case dq_pmsg_free (example_state example_query) True example_pmi of
         Inl err \<Rightarrow> False
       | Inr s' \<Rightarrow> pending (mem s' 0) = 0 \<and> queried (mem s' 0) = {11} \<and> up_sent (mem s' 0) = 2
                   \<and> horizon (mem s' 0) = 81
                   \<and> results_ev (mem s' 0) = Some \<lparr>ev_delay = 3700, ev_fn = Dq_results_expired\<rparr>)"
proof -
  have a: "pmi_dq example_pmi \<in> dqueries (example_state example_query)"
    "qid (mem (example_state example_query) (pmi_dq example_pmi)) = pmi_qid example_pmi"
    "0 < pending (mem (example_state example_query) (pmi_dq example_pmi))"
    "pmi_node_id example_pmi \<in> queried (mem (example_state example_query) (pmi_dq example_pmi))"
    "0 < pmi_degree example_pmi \<and> 0 < pmi_ttl example_pmi"
    by (simp_all add: example_pmi_def example_state_def example_query_def)
  have v: "pmi_dq example_pmi = 0" "mem (example_state example_query) 0 = example_query"
    "uint (pmi_degree example_pmi) = 6" "uint (pmi_ttl example_pmi) = 4"
    "pmi_node_id example_pmi = 11"
    by (simp_all add: example_pmi_def example_state_def)
  have q: "pending example_query = 1" "queried example_query = {11}" "up_sent example_query = 1"
    "horizon example_query = 2"
    "results_ev example_query = Some \<lparr>ev_delay = 3700, ev_fn = Dq_results_expired\<rparr>"
    by (simp_all add: example_query_def)
  have hz: "dq_get_horizon 6 4 = Inr 79"
  proof -
    have "{..3::nat} = {0, 1, 2, 3}" by auto
    then show ?thesis by (simp add: dq_get_horizon_eq DQ_FUZZY_FACTOR_def power_divide)
  qed
  from dq_pmsg_free_alive[of example_pmi "example_state example_query" False, OF a(1,2,3)] a(4)
  have d: "case dq_pmsg_free (example_state example_query) False example_pmi of
         Inl err \<Rightarrow> False
       | Inr s' \<Rightarrow> pending (mem s' 0) = 0 \<and> queried (mem s' 0) = {} \<and> up_sent (mem s' 0) = 1
                   \<and> horizon (mem s' 0) = 2
                   \<and> results_ev (mem s' 0) = Some \<lparr>ev_delay = 1, ev_fn = Dq_results_expired\<rparr>"
    by (auto simp: v q)
  from dq_pmsg_free_alive[of example_pmi "example_state example_query" True, OF a(1,2,3)] a(5)
  have t: "case dq_pmsg_free (example_state example_query) True example_pmi of
         Inl err \<Rightarrow> False
       | Inr s' \<Rightarrow> pending (mem s' 0) = 0 \<and> queried (mem s' 0) = {11} \<and> up_sent (mem s' 0) = 2
                   \<and> horizon (mem s' 0) = 81
                   \<and> results_ev (mem s' 0) = Some \<lparr>ev_delay = 3700, ev_fn = Dq_results_expired\<rparr>"
    by (auto simp: v q hz)
  show ?thesis
    using a d t by simp
qed

section \<open>Properties of the hit and OOB accountant\<close>

text \<open>
  Claim C7, amended. \<^verbatim>\<open>dq_get_results_wanted\<close> reports absent for a MUID with no registered
  query. Otherwise it reports 0 if the query is user-cancelled; else, with the kept-results
  estimate of \<^verbatim>\<open>dq_kept_results\<close> (the count of the search store for a local query; for a
  remote one \<open>kept_results / 3 + new_results\<close> once guidance was received and \<open>results\<close>
  before), \<open>max_results\<close> minus the estimate when the estimate is below \<open>max_results\<close>;
  else 1 when guidance has been received and the recorded \<open>kept_results\<close> is below
  \<open>fin_results\<close>; else 0.
\<close>

theorem dq_get_results_wanted_cases:
  "fst (dq_get_results_wanted e s m) =
     (case by_muid s m of
        None \<Rightarrow> None
      | Some p \<Rightarrow>
          let dq = mem s p;
              estimate = (if node_id dq = NODE_ID_SELF e
                          then search_get_kept_results_by_handle e (sh dq)
                          else if flag_set (flags dq) DQ_F_GOT_GUIDANCE
                          then kept_results dq div 3 + new_results dq
                          else results dq);
              recorded = (if node_id dq = NODE_ID_SELF e
                          then search_get_kept_results_by_handle e (sh dq)
                          else kept_results dq)
          in Some (if flag_set (flags dq) DQ_F_USR_CANCELLED then 0
                   else if estimate < max_results dq then max_results dq - estimate
                   else if flag_set (flags dq) DQ_F_GOT_GUIDANCE \<and> recorded < fin_results dq then 1
                   else 0))"
  by (simp add: dq_get_results_wanted_def dq_kept_results_def Let_def DQ_AVG_ULTRA_NODES_def
           split: option.splits)

text \<open>
  Claim C7, witness: the example query (10 results, no guidance) wants 40; with guidance
  and 300 kept it wants 1; cancelled it wants 0; an unknown MUID is absent.
\<close>

theorem dq_get_results_wanted_cases_witness:
  "fst (dq_get_results_wanted example_env (example_state example_query) [1, 2, 3]) = Some 40
   \<and> fst (dq_get_results_wanted example_env
            (example_state (example_query\<lparr>flags := DQ_F_GOT_GUIDANCE, kept_results := 300\<rparr>))
            [1, 2, 3]) = Some 1
   \<and> fst (dq_get_results_wanted example_env
            (example_state (example_query\<lparr>flags := DQ_F_USR_CANCELLED\<rparr>)) [1, 2, 3]) = Some 0
   \<and> fst (dq_get_results_wanted example_env (example_state example_query) [4]) = None"
  by (simp add: dq_get_results_wanted_cases example_env_def example_state_def example_query_def
        flag_set_def flag_defs)

text \<open>
  Claim C7 as stated fails: the example query is not cancelled, its field \<open>kept_results\<close>
  is 0, below \<open>max_results = 50\<close>, so that \<open>max_results - kept_results = 50\<close>; the code
  reports 40, since it subtracts the estimate (the 10 results seen), not the field.
\<close>

theorem dq_get_results_wanted_counterexample:
  "by_muid (example_state example_query) [1, 2, 3] = Some 0
   \<and> \<not> flag_set (flags (mem (example_state example_query) 0)) DQ_F_USR_CANCELLED
   \<and> kept_results (mem (example_state example_query) 0)
        < max_results (mem (example_state example_query) 0)
   \<and> max_results (mem (example_state example_query) 0)
        - kept_results (mem (example_state example_query) 0) = 50
   \<and> fst (dq_get_results_wanted example_env (example_state example_query) [1, 2, 3]) = Some 40"
  by (simp add: dq_get_results_wanted_def dq_kept_results_def example_env_def example_state_def
        example_query_def flag_set_def flag_defs store_def Let_def)


lemma word_sub_sat:
  fixes a c :: "32 word"
  shows "unat (if a > c then a - c else 0) = unat a - unat c"
  by (auto simp: unat_sub word_less_nat_alt word_le_nat_alt not_less)

lemma word_add_roundtrip:
  fixes a c :: "32 word"
  assumes "unat a + unat c < 2 ^ 32" "0 < c"
  shows "(if a + c > c then a + c - c else 0) = a"
proof (cases "a = 0")
  case True
  then show ?thesis by simp
next
  case False
  then have "0 < unat a" by (simp add: unat_gt_0)
  moreover have "unat (a + c) = unat a + unat c"
    using assms(1) by (simp add: unat_word_ariths)
  ultimately have "c < a + c" by (simp add: word_less_nat_alt)
  then show ?thesis by simp
qed

text \<open>
  Claim C8, amended. For a query registered under the MUID and a count \<open>c\<close> between 1 and
  \<^verbatim>\<open>INT_MAX\<close>: \<^verbatim>\<open>dq_oob_results_got\<close> on its own decrements \<open>oob_results\<close> by \<open>c\<close>, stopping
  at zero; and when the query is not lingering (and \<open>oob_results + c\<close> does not overflow 32
  bits), \<^verbatim>\<open>dq_oob_results_got\<close> after \<^verbatim>\<open>dq_oob_results_ind\<close> with the same count leaves
  \<open>oob_results\<close> at its value before the indication.
\<close>

theorem oob_claimed_after_indication:
  assumes reg: "by_muid s m = Some p"
    and cnt: "0 < c" "c \<le> INT_MAX"
  shows "(\<exists>s'. dq_oob_results_got s m (word_of_int c) = Inr s'
            \<and> unat (oob_results (mem s' p)) = unat (oob_results (mem s p)) - nat c)
       \<and> (\<not> flag_set (flags (mem s p)) DQ_F_LINGER
            \<and> unat (oob_results (mem s p)) + nat c < 2 ^ 32 \<longrightarrow>
          (\<exists>b s1 s2. dq_oob_results_ind e s m c = Inr (b, s1)
             \<and> dq_oob_results_got s1 m (word_of_int c) = Inr s2
             \<and> oob_results (mem s2 p) = oob_results (mem s p)))"
proof -
  let ?w = "word_of_int c :: 32 word"
  have u: "uint ?w = c"
    using cnt by (simp add: uint_word_of_int_eq take_bit_int_eq_self INT_MAX_def)
  then have un: "unat ?w = nat c"
    by (simp add: unat_eq_nat_uint)
  have pos: "0 < ?w"
    using u cnt by (simp add: word_less_def)
  have ok: "0 < ?w \<and> uint ?w \<le> INT_MAX"
    using pos u cnt by simp
  have got: "\<And>t. by_muid t m = Some p \<Longrightarrow>
      dq_oob_results_got t m ?w =
        Inr (store t p (if oob_results (mem t p) > ?w
                        then (mem t p)\<lparr>oob_results := oob_results (mem t p) - ?w\<rparr>
                        else (mem t p)\<lparr>oob_results := 0\<rparr>))"
    using ok by (simp add: dq_oob_results_got_def Let_def)
  have first: "\<exists>s'. dq_oob_results_got s m ?w = Inr s'
            \<and> unat (oob_results (mem s' p)) = unat (oob_results (mem s p)) - nat c"
    using got[OF reg] word_sub_sat[of ?w "oob_results (mem s p)"] un
    by (auto simp: store_simps)
  have second: "\<exists>b s1 s2. dq_oob_results_ind e s m c = Inr (b, s1)
             \<and> dq_oob_results_got s1 m ?w = Inr s2
             \<and> oob_results (mem s2 p) = oob_results (mem s p)"
    if nl: "\<not> flag_set (flags (mem s p)) DQ_F_LINGER"
      and nov: "unat (oob_results (mem s p)) + nat c < 2 ^ 32"
  proof -
    define dq1 where "dq1 = (mem s p)\<lparr>oob_results := oob_results (mem s p) + ?w\<rparr>"
    define dq2 where "dq2 = (if dq_debug e > 19 \<and> node_id dq1 = NODE_ID_SELF e
                         then dq1\<lparr>kept_results := search_get_kept_results_by_handle e (sh dq1)\<rparr>
                         else dq1)"
    have ind: "dq_oob_results_ind e s m c
                 = Inr (\<not> flag_set (flags dq2) DQ_F_USR_CANCELLED, store s p dq2)"
      using reg cnt nl
      by (simp add: dq_oob_results_ind_def dq_count_results_def Let_def dq1_def dq2_def)
    have o2: "oob_results dq2 = oob_results (mem s p) + ?w"
      by (simp add: dq2_def dq1_def)
    have r1: "by_muid (store s p dq2) m = Some p"
      using reg by (simp add: store_simps)
    have rt: "(if oob_results (mem s p) + ?w > ?w then oob_results (mem s p) + ?w - ?w else 0)
                = oob_results (mem s p)"
      using nov pos un by (intro word_add_roundtrip) simp_all
    have "oob_results (mem (store (store s p dq2) p
              (if oob_results (mem (store s p dq2) p) > ?w
               then (mem (store s p dq2) p)\<lparr>oob_results := oob_results (mem (store s p dq2) p) - ?w\<rparr>
               else (mem (store s p dq2) p)\<lparr>oob_results := 0\<rparr>)) p) = oob_results (mem s p)"
      using rt by (auto simp: store_simps o2 split: if_splits)
    then show ?thesis
      using ind got[OF r1] by blast
  qed
  show ?thesis
    using first second by blast
qed

text \<open>Claim C8, witness: the example query with 5 unclaimed results and a count of 3.\<close>

theorem oob_claimed_after_indication_witness:
  "by_muid (example_state example_query) [1, 2, 3] = Some 0
   \<and> (0::int) < 3 \<and> (3::int) \<le> INT_MAX
   \<and> \<not> flag_set (flags (mem (example_state example_query) 0)) DQ_F_LINGER
   \<and> unat (oob_results (mem (example_state example_query) 0)) + nat 3 < 2 ^ 32
   \<and> (\<exists>s'. dq_oob_results_got (example_state example_query) [1, 2, 3] 3 = Inr s'
          \<and> unat (oob_results (mem s' 0)) = 2)
   \<and> (\<exists>b s1 s2. dq_oob_results_ind example_env (example_state example_query) [1, 2, 3] 3
                    = Inr (b, s1)
          \<and> dq_oob_results_got s1 [1, 2, 3] 3 = Inr s2
          \<and> oob_results (mem s2 0) = 5)"
proof -
  have a: "by_muid (example_state example_query) [1, 2, 3] = Some 0"
    "(0::int) < 3" "(3::int) \<le> INT_MAX"
    by (simp_all add: example_state_def INT_MAX_def)
  have b: "\<not> flag_set (flags (mem (example_state example_query) 0)) DQ_F_LINGER"
    "unat (oob_results (mem (example_state example_query) 0)) + nat 3 < 2 ^ 32"
    by (simp_all add: example_state_def example_query_def flag_set_def flag_defs)
  have v: "oob_results (mem (example_state example_query) 0) = 5"
    by (simp add: example_state_def example_query_def)
  show ?thesis
    using oob_claimed_after_indication[OF a, of example_env] a b
    by (simp add: v)
qed

text \<open>
  Claim C8 as stated fails for a lingering query: the indication of 3 results is counted
  into \<open>linger_results\<close>, not into \<open>oob_results\<close>, and the claim that follows takes
  \<open>oob_results\<close> from 5 down to 2.
\<close>

theorem oob_claimed_after_indication_counterexample:
  "oob_results (mem (example_state (example_query\<lparr>flags := DQ_F_LINGER\<rparr>)) 0) = 5
   \<and> (case dq_oob_results_ind example_env
             (example_state (example_query\<lparr>flags := DQ_F_LINGER\<rparr>)) [1, 2, 3] 3 of
         Inl err \<Rightarrow> False
       | Inr (b, s1) \<Rightarrow>
           (case dq_oob_results_got s1 [1, 2, 3] 3 of
              Inl err \<Rightarrow> False
            | Inr s2 \<Rightarrow> oob_results (mem s2 0) = 2 \<and> linger_results (mem s2 0) = 3))"
  by (simp add: dq_oob_results_ind_def dq_count_results_def dq_oob_results_got_def
        example_env_def example_state_def example_query_def flag_set_def flag_defs store_def
        Let_def INT_MAX_def)

section \<open>Properties of the guidance protocol\<close>

lemma dq_got_results_cancelled:
  assumes "by_muid s mh = Some p" "flag_set (flags (mem s p)) DQ_F_USR_CANCELLED" "0 < sint c"
  shows "\<exists>s1. dq_got_results e s mh c st = Inr (False, s1) \<and> by_muid s1 = by_muid s
            \<and> flag_set (flags (mem s1 p)) DQ_F_USR_CANCELLED"
  using assms
  by (auto simp: dq_got_results_def dq_count_results_def Let_def store_simps)

lemma dq_got_results_run_cancelled:
  assumes "by_muid s mh = Some p" "flag_set (flags (mem s p)) DQ_F_USR_CANCELLED"
    "\<forall>h \<in> set hits. 0 < sint (fst h)"
  shows "\<exists>s2. dq_got_results_run e s mh hits = Inr (replicate (length hits) False, s2)"
  using assms
proof (induction hits arbitrary: s)
  case Nil
  then show ?case by simp
next
  case (Cons h hits)
  obtain c st where h: "h = (c, st)" by (cases h)
  with Cons.prems have "0 < sint c" by simp
  from dq_got_results_cancelled[OF Cons.prems(1,2) this, of e st]
  obtain s1 where s1: "dq_got_results e s mh c st = Inr (False, s1)" "by_muid s1 = by_muid s"
    "flag_set (flags (mem s1 p)) DQ_F_USR_CANCELLED" by blast
  have "\<exists>s2. dq_got_results_run e s1 mh hits = Inr (replicate (length hits) False, s2)"
    using Cons.prems s1 by (intro Cons.IH) simp_all
  then show ?case using s1(1) h by auto
qed

text \<open>
  Claim C10. When \<^verbatim>\<open>dq_got_query_status\<close> delivers \<open>kept = 0xffff\<close> from the originating node
  for a query that is lingering, the query gets the flags user-cancelled and got-guidance
  and stays lingering, \<open>kept_results\<close> becomes \<open>0xffff\<close>, \<open>last_status\<close> is the current
  \<open>up_sent\<close>, \<open>new_results\<close> is reset, both events (and so the lingering deadline) are
  left as they were and nothing is sent; every later run of hits under a MUID of that
  query has each hit reported as not to be forwarded.
\<close>

theorem stop_guidance_while_lingering:
  assumes found: "(case by_muid s m of Some q \<Rightarrow> Some q | None \<Rightarrow> by_leaf_muid s m) = Some p"
    and orig: "node_id (mem s p) = sender"
    and ling: "flag_set (flags (mem s p)) DQ_F_LINGER"
  shows "\<exists>s'. dq_got_query_status e s m sender 0xffff = Inr s'
           \<and> flag_set (flags (mem s' p)) DQ_F_USR_CANCELLED
           \<and> flag_set (flags (mem s' p)) DQ_F_GOT_GUIDANCE
           \<and> flag_set (flags (mem s' p)) DQ_F_LINGER
           \<and> kept_results (mem s' p) = 0xffff
           \<and> last_status (mem s' p) = up_sent (mem s p)
           \<and> new_results (mem s' p) = 0
           \<and> results_ev (mem s' p) = results_ev (mem s p)
           \<and> expire_ev (mem s' p) = expire_ev (mem s p)
           \<and> sendq s' = sendq s
           \<and> (\<forall>mh hits. by_muid s mh = Some p \<and> (\<forall>h \<in> set hits. 0 < sint (fst h)) \<longrightarrow>
                 (\<exists>s2. dq_got_results_run e s' mh hits = Inr (replicate (length hits) False, s2)))"
proof -
  define f1 where "f1 = flags (mem s p) OR DQ_F_GOT_GUIDANCE"
  define f2 where "f2 = (if \<not> flag_set f1 DQ_F_WAITING \<and> \<not> flag_set f1 DQ_F_LEAF_GUIDED
                         then f1 OR DQ_F_LEAF_GUIDED else f1)"
  define lg where "lg = (if \<not> flag_set f1 DQ_F_WAITING \<and> \<not> flag_set f1 DQ_F_LEAF_GUIDED
                         then [(sender, True)] else [])"
  define dq3 where "dq3 = (mem s p)\<lparr>kept_results := 0xffff, last_status := up_sent (mem s p),
                                    new_results := 0, flags := f2 OR DQ_F_USR_CANCELLED\<rparr>"
  define s' where "s' = store (s\<lparr>leaf_guidance := leaf_guidance s @ lg\<rparr>) p dq3"
  have nz: "DQ_F_USR_CANCELLED \<noteq> 0" "DQ_F_GOT_GUIDANCE \<noteq> 0"
    by (simp_all add: flag_defs)
  have l1: "flag_set f1 DQ_F_LINGER"
    unfolding f1_def using ling by (rule flag_set_or_keep)
  have g1: "flag_set f1 DQ_F_GOT_GUIDANCE"
    unfolding f1_def using nz(2) by (rule flag_set_or_same)
  have l2: "flag_set f2 DQ_F_LINGER" and g2: "flag_set f2 DQ_F_GOT_GUIDANCE"
    unfolding f2_def using l1 g1 by (simp_all add: flag_set_or_keep)
  have l3: "flag_set (f2 OR DQ_F_USR_CANCELLED) DQ_F_LINGER"
    and g3: "flag_set (f2 OR DQ_F_USR_CANCELLED) DQ_F_GOT_GUIDANCE"
    and c3: "flag_set (f2 OR DQ_F_USR_CANCELLED) DQ_F_USR_CANCELLED"
    using l2 g2 nz(1) by (simp_all add: flag_set_or_keep flag_set_or_same)
  have run: "dq_got_query_status e s m sender 0xffff = Inr s'"
  proof (cases "\<not> flag_set f1 DQ_F_WAITING \<and> \<not> flag_set f1 DQ_F_LEAF_GUIDED")
    case True
    then have "f2 = f1 OR DQ_F_LEAF_GUIDED" "lg = [(sender, True)]"
      by (simp_all add: f2_def lg_def)
    with True found orig l3 show ?thesis
      unfolding f1_def by (simp add: dq_got_query_status_def Let_def dq3_def s'_def)
  next
    case False
    then have "f2 = f1" "lg = []"
      by (auto simp: f2_def lg_def)
    with False found orig l3 show ?thesis
      unfolding f1_def by (auto simp: dq_got_query_status_def Let_def dq3_def s'_def)
  qed
  have later: "\<exists>s2. dq_got_results_run e s' mh hits = Inr (replicate (length hits) False, s2)"
    if "by_muid s mh = Some p" "\<forall>h \<in> set hits. 0 < sint (fst h)" for mh hits
  proof -
    have "by_muid s' mh = Some p" "flag_set (flags (mem s' p)) DQ_F_USR_CANCELLED"
      using that c3 by (simp_all add: s'_def store_simps dq3_def)
    then show ?thesis using that(2) by (rule dq_got_results_run_cancelled)
  qed
  have props: "flag_set (flags (mem s' p)) DQ_F_USR_CANCELLED"
    "flag_set (flags (mem s' p)) DQ_F_GOT_GUIDANCE"
    "flag_set (flags (mem s' p)) DQ_F_LINGER"
    "kept_results (mem s' p) = 0xffff"
    "last_status (mem s' p) = up_sent (mem s p)"
    "new_results (mem s' p) = 0"
    "results_ev (mem s' p) = results_ev (mem s p)"
    "expire_ev (mem s' p) = expire_ev (mem s p)"
    "sendq s' = sendq s"
    using l3 g3 c3 by (simp_all add: s'_def store_simps dq3_def)
  show ?thesis
    using run props later by blast
qed


text \<open>Claim C10, witness: the example query, lingering, then two hits.\<close>

theorem stop_guidance_while_lingering_witness:
  "(case by_muid (example_state (example_query\<lparr>flags := DQ_F_LINGER, results_ev := None\<rparr>)) [1, 2, 3] of
      Some q \<Rightarrow> Some q
    | None \<Rightarrow> by_leaf_muid (example_state (example_query\<lparr>flags := DQ_F_LINGER, results_ev := None\<rparr>))
               [1, 2, 3]) = Some 0
   \<and> node_id (mem (example_state (example_query\<lparr>flags := DQ_F_LINGER, results_ev := None\<rparr>)) 0) = 7
   \<and> flag_set (flags (mem (example_state (example_query\<lparr>flags := DQ_F_LINGER, results_ev := None\<rparr>)) 0))
         DQ_F_LINGER
   \<and> (\<exists>s'. dq_got_query_status example_env
               (example_state (example_query\<lparr>flags := DQ_F_LINGER, results_ev := None\<rparr>))
               [1, 2, 3] 7 0xffff = Inr s'
          \<and> flag_set (flags (mem s' 0)) DQ_F_USR_CANCELLED
          \<and> kept_results (mem s' 0) = 0xffff
          \<and> last_status (mem s' 0) = 1
          \<and> new_results (mem s' 0) = 0
          \<and> results_ev (mem s' 0) = None
          \<and> expire_ev (mem s' 0) = Some \<lparr>ev_delay = 600000, ev_fn = Dq_expired\<rparr>
          \<and> (\<exists>s2. dq_got_results_run example_env s' [1, 2, 3] [(2, 0), (1, 0)]
                      = Inr ([False, False], s2)))"
proof -
  let ?s = "example_state (example_query\<lparr>flags := DQ_F_LINGER, results_ev := None\<rparr>)"
  let ?hits = "[(2, 0), (1, 0)] :: (32 word \<times> 32 word) list"
  have a: "(case by_muid ?s [1, 2, 3] of Some q \<Rightarrow> Some q | None \<Rightarrow> by_leaf_muid ?s [1, 2, 3]) = Some 0"
    and b: "node_id (mem ?s 0) = 7"
    and c: "flag_set (flags (mem ?s 0)) DQ_F_LINGER"
    by (simp_all add: example_state_def example_query_def flag_set_def flag_defs)
  have m: "by_muid ?s [1, 2, 3] = Some 0"
    by (simp add: example_state_def)
  have v: "up_sent (mem ?s 0) = 1" "results_ev (mem ?s 0) = None"
    "expire_ev (mem ?s 0) = Some \<lparr>ev_delay = 600000, ev_fn = Dq_expired\<rparr>"
    by (simp_all add: example_state_def example_query_def)
  have h: "\<forall>h \<in> set ?hits. 0 < sint (fst h)"
    by simp
  from stop_guidance_while_lingering[OF a b c, of example_env]
  obtain s' where s': "dq_got_query_status example_env ?s [1, 2, 3] 7 0xffff = Inr s'"
    "flag_set (flags (mem s' 0)) DQ_F_USR_CANCELLED"
    "kept_results (mem s' 0) = 0xffff"
    "last_status (mem s' 0) = up_sent (mem ?s 0)"
    "new_results (mem s' 0) = 0"
    "results_ev (mem s' 0) = results_ev (mem ?s 0)"
    "expire_ev (mem s' 0) = expire_ev (mem ?s 0)"
    and all: "\<forall>mh hits. by_muid ?s mh = Some 0 \<and> (\<forall>h \<in> set hits. 0 < sint (fst h)) \<longrightarrow>
                 (\<exists>s2. dq_got_results_run example_env s' mh hits
                         = Inr (replicate (length hits) False, s2))"
    by blast
  have "\<exists>s2. dq_got_results_run example_env s' [1, 2, 3] ?hits
                         = Inr (replicate (length ?hits) False, s2)"
    by (rule all[rule_format, OF conjI[OF m h]])
  then have r: "\<exists>s2. dq_got_results_run example_env s' [1, 2, 3] ?hits
                         = Inr ([False, False], s2)"
    by (simp add: numeral_2_eq_2)
  have "dq_got_query_status example_env ?s [1, 2, 3] 7 0xffff = Inr s'
          \<and> flag_set (flags (mem s' 0)) DQ_F_USR_CANCELLED
          \<and> kept_results (mem s' 0) = 0xffff
          \<and> last_status (mem s' 0) = 1
          \<and> new_results (mem s' 0) = 0
          \<and> results_ev (mem s' 0) = None
          \<and> expire_ev (mem s' 0) = Some \<lparr>ev_delay = 600000, ev_fn = Dq_expired\<rparr>
          \<and> (\<exists>s2. dq_got_results_run example_env s' [1, 2, 3] ?hits = Inr ([False, False], s2))"
    using s' r unfolding v by (intro conjI)
  then have "\<exists>s'. dq_got_query_status example_env ?s [1, 2, 3] 7 0xffff = Inr s'
          \<and> flag_set (flags (mem s' 0)) DQ_F_USR_CANCELLED
          \<and> kept_results (mem s' 0) = 0xffff
          \<and> last_status (mem s' 0) = 1
          \<and> new_results (mem s' 0) = 0
          \<and> results_ev (mem s' 0) = None
          \<and> expire_ev (mem s' 0) = Some \<lparr>ev_delay = 600000, ev_fn = Dq_expired\<rparr>
          \<and> (\<exists>s2. dq_got_results_run example_env s' [1, 2, 3] ?hits = Inr ([False, False], s2))"
    by (rule exI)
  with a b c show ?thesis
    by (intro conjI)
qed

section \<open>Properties of the TTL selection\<close>

lemma select_ttl_loop_result:
  assumes "0 < dg"
  shows "\<exists>t. select_ttl_loop dg reach n = Inr t \<and> t \<le> n
           \<and> (0 < t \<longrightarrow> (\<exists>h. dq_get_horizon dg (int t) = Inr h \<and> real (unat h) \<le> reach))
           \<and> (\<forall>t'. t < t' \<and> t' \<le> n \<longrightarrow>
                 (\<exists>h. dq_get_horizon dg (int t') = Inr h \<and> reach < real (unat h)))"
proof (induction n)
  case 0
  show ?case by simp
next
  case (Suc n)
  obtain h where h: "dq_get_horizon dg (int (Suc n)) = Inr h"
    using dq_get_horizon_eq[OF assms, of "int (Suc n)"] by auto
  show ?case
  proof (cases "real (unat h) \<le> reach")
    case True
    with h show ?thesis by auto
  next
    case False
    from Suc.IH obtain t where t: "select_ttl_loop dg reach n = Inr t" "t \<le> n"
      "0 < t \<longrightarrow> (\<exists>h. dq_get_horizon dg (int t) = Inr h \<and> real (unat h) \<le> reach)"
      "\<forall>t'. t < t' \<and> t' \<le> n \<longrightarrow>
                 (\<exists>h. dq_get_horizon dg (int t') = Inr h \<and> reach < real (unat h))"
      by blast
    have "\<exists>h. dq_get_horizon dg (int t') = Inr h \<and> reach < real (unat h)"
      if "t < t'" "t' \<le> Suc n" for t'
    proof (cases "t' = Suc n")
      case True
      with h False show ?thesis by auto
    next
      case False
      with that t(4) show ?thesis by auto
    qed
    with h False t show ?thesis by auto
  qed
qed

text \<open>
  Claim C5, amended. For a query whose kept-results estimate is below \<open>max_results\<close>, a
  positive number of connections and a node of positive degree with
  \<open>min (node.max_ttl, query.ttl) \<ge> 1\<close>, \<^verbatim>\<open>dq_select_ttl\<close> computes \<open>results_per_up\<close> as the
  integer quotient of \<open>results\<close> by \<open>max (horizon, 1)\<close>, \<open>to_reach\<close> as
  \<open>(max_results - estimate) / max (results_per_up, 0.000001)\<close> and \<open>to_reach_per_node\<close> as
  \<open>to_reach / connections\<close>, and returns the largest TTL up to
  \<open>min (node.max_ttl, query.ttl)\<close> whose horizon does not exceed \<open>to_reach_per_node\<close>; when
  no TTL qualifies it returns \<open>min (node.max_ttl, query.ttl)\<close>. The TTL returned is between 1
  and \<open>min (node.max_ttl, query.ttl)\<close>.
\<close>

theorem dq_select_ttl_largest:
  assumes conn: "0 < connections"
    and need: "fst (dq_kept_results e dq) < max_results dq"
    and deg: "0 < degree n"
    and tmax: "1 \<le> min (max_ttl n) (uint (ttl dq))"
  shows "\<exists>t. dq_select_ttl e dq n connections = Inr (t, snd (dq_kept_results e dq))
           \<and> 1 \<le> t \<and> t \<le> min (max_ttl n) (uint (ttl dq))
           \<and> (let reach = real (unat (max_results dq - fst (dq_kept_results e dq)))
                             / max (real (unat (results dq div max (horizon dq) 1))) (1 / 1000000)
                             / real_of_int connections
               in (if \<exists>h. dq_get_horizon (degree n) t = Inr h \<and> real (unat h) \<le> reach
                   then \<forall>t'. t < t' \<and> t' \<le> min (max_ttl n) (uint (ttl dq)) \<longrightarrow>
                          (\<exists>h. dq_get_horizon (degree n) t' = Inr h \<and> reach < real (unat h))
                   else t = min (max_ttl n) (uint (ttl dq))
                        \<and> (\<forall>t'. 1 \<le> t' \<and> t' \<le> min (max_ttl n) (uint (ttl dq)) \<longrightarrow>
                             (\<exists>h. dq_get_horizon (degree n) t' = Inr h \<and> reach < real (unat h)))))"
proof -
  define k where "k = fst (dq_kept_results e dq)"
  define dq' where "dq' = snd (dq_kept_results e dq)"
  define tm where "tm = min (max_ttl n) (uint (ttl dq))"
  define reach where "reach = real (unat (max_results dq - k))
                             / max (real (unat (results dq div max (horizon dq) 1))) (1 / 1000000)
                             / real_of_int connections"
  have kr: "dq_kept_results e dq = (k, dq')"
    by (simp add: k_def dq'_def)
  have same: "max_results dq' = max_results dq" "results dq' = results dq"
    "horizon dq' = horizon dq" "ttl dq' = ttl dq"
    by (simp_all add: dq'_def dq_kept_results_def Let_def)
  have needed: "0 < max_results dq - k"
    using need unfolding k_def[symmetric]
    by (metis word_greater_zero_iff right_minus_eq less_irrefl)
  have htr: "hosts_to_reach_via_node dq' (max_results dq - k) connections = reach"
    by (simp add: hosts_to_reach_via_node_def reach_def same Let_def)
  from select_ttl_loop_result[OF deg, of reach "nat tm"]
  obtain t0 where t0: "select_ttl_loop (degree n) reach (nat tm) = Inr t0" "t0 \<le> nat tm"
    "0 < t0 \<longrightarrow> (\<exists>h. dq_get_horizon (degree n) (int t0) = Inr h \<and> real (unat h) \<le> reach)"
    "\<forall>t'. t0 < t' \<and> t' \<le> nat tm \<longrightarrow>
        (\<exists>h. dq_get_horizon (degree n) (int t') = Inr h \<and> reach < real (unat h))"
    by blast
  define t where "t = (if t0 = 0 then tm else int t0)"
  have tm1: "1 \<le> tm" using tmax by (simp add: tm_def)
  have tpos: "0 < t" "1 \<le> t" "t \<le> tm"
    using tm1 t0(2) by (auto simp: t_def)
  have run: "dq_select_ttl e dq n connections = Inr (t, dq')"
    using conn needed tpos(1) t0(1)
    by (simp add: dq_select_ttl_def kr same htr Let_def tm_def[symmetric] t_def)
  have above: "\<exists>h. dq_get_horizon (degree n) t' = Inr h \<and> reach < real (unat h)"
    if "int t0 < t'" "t' \<le> tm" for t'
  proof -
    have "t0 < nat t'" "nat t' \<le> nat tm" "int (nat t') = t'"
      using that by auto
    with t0(4) show ?thesis by metis
  qed
  have sel: "if \<exists>h. dq_get_horizon (degree n) t = Inr h \<and> real (unat h) \<le> reach
             then \<forall>t'. t < t' \<and> t' \<le> tm \<longrightarrow>
                    (\<exists>h. dq_get_horizon (degree n) t' = Inr h \<and> reach < real (unat h))
             else t = tm
                  \<and> (\<forall>t'. 1 \<le> t' \<and> t' \<le> tm \<longrightarrow>
                        (\<exists>h. dq_get_horizon (degree n) t' = Inr h \<and> reach < real (unat h)))"
  proof (cases "t0 = 0")
    case True
    then have "t = tm" by (simp add: t_def)
    moreover have "\<forall>t'. 1 \<le> t' \<and> t' \<le> tm \<longrightarrow>
                        (\<exists>h. dq_get_horizon (degree n) t' = Inr h \<and> reach < real (unat h))"
      using above True by auto
    ultimately show ?thesis by auto
  next
    case False
    then have "t = int t0" by (simp add: t_def)
    moreover have "\<exists>h. dq_get_horizon (degree n) (int t0) = Inr h \<and> real (unat h) \<le> reach"
      using False t0(3) by simp
    ultimately show ?thesis using above by auto
  qed
  show ?thesis
    unfolding Let_def k_def[symmetric] dq'_def[symmetric] tm_def[symmetric] reach_def[symmetric]
    using run tpos(2,3) sel by blast
qed


lemma horizon_degree_6:
  "dq_get_horizon 6 1 = Inr 1" "dq_get_horizon 6 2 = Inr 4" "dq_get_horizon 6 3 = Inr 19"
  "dq_get_horizon 6 4 = Inr 79"
proof -
  have s: "{..1::nat} = {0, 1}" "{..2::nat} = {0, 1, 2}" "{..3::nat} = {0, 1, 2, 3}" by auto
  show "dq_get_horizon 6 1 = Inr 1" "dq_get_horizon 6 2 = Inr 4" "dq_get_horizon 6 3 = Inr 19"
    "dq_get_horizon 6 4 = Inr 79"
    by (simp_all add: dq_get_horizon_eq DQ_FUZZY_FACTOR_def power_divide s)
qed

lemma example_select_ttl:
  "dq_select_ttl example_env (example_query\<lparr>results := 4, max_results := 100\<rparr>) example_node 1
     = Inr (3, example_query\<lparr>results := 4, max_results := 100\<rparr>)"
proof -
  have "select_ttl_loop 6 48 (Suc (Suc (Suc (Suc 0)))) = Inr (Suc (Suc (Suc 0)))"
    using horizon_degree_6 by simp
  then have l: "select_ttl_loop 6 48 4 = Inr 3"
    by (simp add: eval_nat_numeral)
  show ?thesis
    by (simp add: dq_select_ttl_def dq_kept_results_def hosts_to_reach_via_node_def Let_def
          example_env_def example_query_def example_node_def flag_set_def flag_defs l)
qed

text \<open>
  Claim C5, witness: 4 results at horizon 2 and 100 wanted give 48 hosts to reach through
  the one connection; at degree 6 the horizon is 79 at TTL 4 and 19 at TTL 3, so TTL 3 is
  selected.
\<close>

theorem dq_select_ttl_largest_witness:
  "(0::int) < 1
   \<and> fst (dq_kept_results example_env (example_query\<lparr>results := 4, max_results := 100\<rparr>))
        < max_results (example_query\<lparr>results := 4, max_results := 100\<rparr>)
   \<and> 0 < degree example_node
   \<and> 1 \<le> min (max_ttl example_node) (uint (ttl (example_query\<lparr>results := 4, max_results := 100\<rparr>)))
   \<and> dq_select_ttl example_env (example_query\<lparr>results := 4, max_results := 100\<rparr>) example_node 1
        = Inr (3, example_query\<lparr>results := 4, max_results := 100\<rparr>)
   \<and> dq_get_horizon (degree example_node) 3 = Inr 19
   \<and> dq_get_horizon (degree example_node) 4 = Inr 79
   \<and> real (unat (max_results (example_query\<lparr>results := 4, max_results := 100\<rparr>)
                    - fst (dq_kept_results example_env
                             (example_query\<lparr>results := 4, max_results := 100\<rparr>))))
        / max (real (unat (results (example_query\<lparr>results := 4, max_results := 100\<rparr>)
                            div max (horizon (example_query\<lparr>results := 4, max_results := 100\<rparr>)) 1)))
              (1 / 1000000)
        / real_of_int 1 = 48"
proof -
  let ?q = "example_query\<lparr>results := 4, max_results := 100\<rparr>"
  have a: "(0::int) < 1" "fst (dq_kept_results example_env ?q) < max_results ?q"
    "0 < degree example_node" "1 \<le> min (max_ttl example_node) (uint (ttl ?q))"
    by (simp_all add: dq_kept_results_def example_env_def example_query_def example_node_def
          flag_set_def flag_defs)
  have r: "real (unat (max_results ?q - fst (dq_kept_results example_env ?q)))
        / max (real (unat (results ?q div max (horizon ?q) 1))) (1 / 1000000)
        / real_of_int 1 = 48"
    by (simp add: dq_kept_results_def example_env_def example_query_def flag_set_def flag_defs)
  have d: "degree example_node = 6"
    by (simp add: example_node_def)
  from dq_select_ttl_largest[OF a]
  obtain t where "dq_select_ttl example_env ?q example_node 1
                    = Inr (t, snd (dq_kept_results example_env ?q))" "1 \<le> t"
    by blast
  with example_select_ttl have "dq_select_ttl example_env ?q example_node 1 = Inr (3, ?q)"
    by simp
  with a r show ?thesis
    by (simp add: d horizon_degree_6)
qed

text \<open>
  Claim C5 as stated fails on the same input: the smallest TTL whose horizon does not
  exceed 48 is 1 (horizon 1), the code returns 3.
\<close>

theorem dq_select_ttl_counterexample:
  "dq_select_ttl example_env (example_query\<lparr>results := 4, max_results := 100\<rparr>) example_node 1
     = Inr (3, example_query\<lparr>results := 4, max_results := 100\<rparr>)
   \<and> hosts_to_reach_via_node (example_query\<lparr>results := 4, max_results := 100\<rparr>) 96 1 = 48
   \<and> dq_get_horizon (degree example_node) 1 = Inr 1
   \<and> spec_select_ttl (degree example_node) 48 4 = 1"
proof -
  have u: "[Suc 0..<5] = [1, 2, 3, 4]"
    by (simp add: upt_rec)
  have "spec_select_ttl 6 48 4 = 1"
    by (simp add: spec_select_ttl_def u horizon_degree_6)
  moreover have "hosts_to_reach_via_node (example_query\<lparr>results := 4, max_results := 100\<rparr>) 96 1 = 48"
    by (simp add: hosts_to_reach_via_node_def example_query_def)
  ultimately show ?thesis
    using example_select_ttl by (simp add: example_node_def horizon_degree_6)
qed

section \<open>Properties of the query state machine\<close>

lemma flag_set_mask_or:
  "flag_set f m \<Longrightarrow> flag_set f (m OR m')"
  unfolding flag_set_def
  by (metis bit.conj_disj_distrib or_eq_0_iff)

text \<open>Terminating puts the query in lingering mode and sends nothing.\<close>

lemma terminate_query_lingers:
  assumes "\<not> flag_set (flags dq) DQ_F_LINGER" "results_ev dq = None"
  shows "\<exists>d. terminate_query dq = Inr (d, []) \<and> flag_set (flags d) DQ_F_LINGER
           \<and> results_ev d = None \<and> pending d = pending dq \<and> queried d = queried dq"
proof -
  have "DQ_F_LINGER \<noteq> 0" by (simp add: flag_defs)
  then have "flag_set ((flags dq AND NOT DQ_F_WAITING) OR DQ_F_LINGER) DQ_F_LINGER"
    by (rule flag_set_or_same)
  then show ?thesis
    using assms by (simp add: terminate_query_def dq_terminate_def Let_def)
qed

text \<open>
  The gates of \<^verbatim>\<open>dq_send_next\<close> in the order they are tested, up to the selection of a
  candidate: lost ultrapeer role, horizon, kept results, results seen against
  \<open>fin_results\<close> (strictly greater), ultrapeers queried, pending messages.
\<close>

lemma dq_send_next_gates:
  assumes "results_ev dq = None"
  shows "dq_send_next e p dq =
           (if \<not> current_peermode_is_ultra e then terminate_query dq
            else if horizon dq \<ge> DQ_MAX_HORIZON then terminate_query (snd (dq_kept_results e dq))
            else if fst (dq_kept_results e dq) \<ge> max_results dq
                 then terminate_query (snd (dq_kept_results e dq))
            else if results dq + oob_results dq > fin_results dq
                 then terminate_query (snd (dq_kept_results e dq))
            else if up_sent dq \<ge> max_connections e - normal_connections e
                 then terminate_query (snd (dq_kept_results e dq))
            else if pending dq \<ge> DQ_MAX_PENDING
                 then Inr ((snd (dq_kept_results e dq))
                             \<lparr>results_ev := cq_insert (result_timeout dq) Dq_results_expired\<rparr>, [])
            else dq_send_next e p dq)"
proof -
  obtain k dq' where kr: "dq_kept_results e dq = (k, dq')"
    by (cases "dq_kept_results e dq")
  then have same: "horizon dq' = horizon dq" "max_results dq' = max_results dq"
    "results dq' = results dq" "oob_results dq' = oob_results dq" "fin_results dq' = fin_results dq"
    "up_sent dq' = up_sent dq" "pending dq' = pending dq" "result_timeout dq' = result_timeout dq"
    by (auto simp: dq_kept_results_def Let_def split: if_splits)
  show ?thesis
    using assms by (simp add: dq_send_next_def kr same)
qed

text \<open>
  When \<^verbatim>\<open>dq_results_expired\<close> asks the leaf for its status, the results event is armed at the
  larger of \<open>(avg + last) / 2000\<close> and 40000, read as milliseconds.
\<close>

lemma dq_results_expired_request:
  assumes "\<not> flag_set (flags (mem s p)) DQ_F_LINGER" "\<not> flag_set (flags (mem s p)) DQ_F_WAITING"
    "flag_set (flags (mem s p)) DQ_F_LEAF_GUIDED"
    "\<not> up_sent (mem s p) - last_status (mem s p) < DQ_STAT_THRESHOLD"
    "\<not> (flag_set (flags (mem s p)) DQ_F_ROUTING_HITS \<and> new_results (mem s p) < DQ_MIN_FOR_GUIDANCE)"
    "node_id (mem s p) \<noteq> NODE_ID_SELF e" "alive (mem s p)"
    "node_active_by_id e (node_id (mem s p)) = Some n"
    "alive_get_roundtrip_ms e (node_id (mem s p)) = (avg, lst)"
  shows "\<exists>s'. dq_results_expired e s p = Inr s'
           \<and> qstat_reqs s' = qstat_reqs s @
                [(n_id n, case lmuid (mem s p) of Some m \<Rightarrow> m | None \<Rightarrow> muid (mem s p))]
           \<and> results_ev (mem s' p) =
                Some \<lparr>ev_delay = (if DQ_STATUS_TIMEOUT <s (avg + lst) div 2000
                                   then (avg + lst) div 2000 else DQ_STATUS_TIMEOUT),
                      ev_fn = Dq_results_expired\<rparr>"
proof -
  have "flag_set (flags (mem s p)) (DQ_F_LEAF_GUIDED OR DQ_F_ROUTING_HITS)"
    using assms(3) by (rule flag_set_mask_or)
  then show ?thesis
    using assms
    by (auto simp: dq_results_expired_def Let_def store_simps cq_insert_def split: option.splits)
qed

text \<open>
  Claim C1, at the boundary of its fourth condition. The query is leaf-guided, has
  received guidance (nothing kept), has seen 995 results and has 5 unclaimed OOB results,
  so that \<open>results + oob_results\<close> equals \<open>fin_results = 1000\<close>; three messages are
  pending. \<^verbatim>\<open>dq_send_next\<close> does not terminate the query: it arms the results event for
  \<open>result_timeout\<close> and sends nothing. With one result more it terminates the query.
\<close>

theorem dq_send_next_fin_results_boundary:
  "results (example_query\<lparr>flags := DQ_F_LEAF_GUIDED OR DQ_F_GOT_GUIDANCE, results := 995,
                            new_results := 0, pending := 3, results_ev := None\<rparr>)
     + oob_results (example_query\<lparr>flags := DQ_F_LEAF_GUIDED OR DQ_F_GOT_GUIDANCE, results := 995,
                            new_results := 0, pending := 3, results_ev := None\<rparr>)
     = fin_results (example_query\<lparr>flags := DQ_F_LEAF_GUIDED OR DQ_F_GOT_GUIDANCE, results := 995,
                            new_results := 0, pending := 3, results_ev := None\<rparr>)
   \<and> dq_send_next example_env 0
        (example_query\<lparr>flags := DQ_F_LEAF_GUIDED OR DQ_F_GOT_GUIDANCE, results := 995,
                        new_results := 0, pending := 3, results_ev := None\<rparr>)
      = Inr (example_query\<lparr>flags := DQ_F_LEAF_GUIDED OR DQ_F_GOT_GUIDANCE, results := 995,
                            new_results := 0, pending := 3,
                            results_ev := Some \<lparr>ev_delay = 3700, ev_fn = Dq_results_expired\<rparr>\<rparr>, [])
   \<and> dq_send_next example_env 0
        (example_query\<lparr>flags := DQ_F_LEAF_GUIDED OR DQ_F_GOT_GUIDANCE, results := 996,
                        new_results := 0, pending := 3, results_ev := None\<rparr>)
      = Inr (example_query\<lparr>flags := DQ_F_LEAF_GUIDED OR DQ_F_GOT_GUIDANCE OR DQ_F_LINGER,
                            results := 996, new_results := 0, pending := 3, results_ev := None,
                            expire_ev := Some \<lparr>ev_delay = 180000, ev_fn = Dq_expired\<rparr>\<rparr>, [])"
  by (simp add: dq_send_next_def dq_kept_results_def terminate_query_def dq_terminate_def
        cq_insert_def cq_resched_def example_env_def example_query_def flag_set_def flag_defs
        Let_def DQ_MAX_HORIZON_def DQ_MAX_PENDING_def DQ_AVG_ULTRA_NODES_def
        DQ_LINGER_TIMEOUT_def word_le_nat_alt word_less_nat_alt)

text \<open>Claim C1: at the boundary the query is not lingering and waits for its results event.\<close>

theorem dq_send_next_fin_results_boundary_witness:
  "\<exists>d. dq_send_next example_env 0
          (example_query\<lparr>flags := DQ_F_LEAF_GUIDED OR DQ_F_GOT_GUIDANCE, results := 995,
                          new_results := 0, pending := 3, results_ev := None\<rparr>) = Inr (d, [])
      \<and> \<not> flag_set (flags d) DQ_F_LINGER
      \<and> results_ev d = Some \<lparr>ev_delay = 3700, ev_fn = Dq_results_expired\<rparr>"
  using dq_send_next_fin_results_boundary
  by (simp add: flag_set_def flag_defs)

text \<open>
  Claim C9, on a leaf whose alive pings took 50 s on average and at last. The query is
  leaf-guided and three ultrapeers were queried since the last status:
  \<^verbatim>\<open>dq_results_expired\<close> sends the status request and arms the results event at 40000 ms,
  not at the 50000 ms of the average round trip.
\<close>

theorem dq_results_expired_status_timeout:
  "alive_get_roundtrip_ms example_env
      (node_id (example_query\<lparr>flags := DQ_F_LEAF_GUIDED, up_sent := 3\<rparr>)) = (50000, 50000)
   \<and> (case dq_results_expired example_env
             (example_state (example_query\<lparr>flags := DQ_F_LEAF_GUIDED, up_sent := 3\<rparr>)) 0 of
         Inl err \<Rightarrow> False
       | Inr s' \<Rightarrow>
           qstat_reqs s' = [(7, [1, 2, 3])]
           \<and> flag_set (flags (mem s' 0)) DQ_F_WAITING
           \<and> results_ev (mem s' 0) = Some \<lparr>ev_delay = 40000, ev_fn = Dq_results_expired\<rparr>)"
  by (simp add: dq_results_expired_def example_env_def example_state_def example_query_def
        example_node_def flag_set_def flag_defs Let_def store_def cq_insert_def
        DQ_STAT_THRESHOLD_def DQ_MIN_FOR_GUIDANCE_def DQ_STATUS_TIMEOUT_def
        DQ_MAX_STAT_TIMEOUT_def word_sless_alt)


text \<open>Claim C9: the guidance timer of that query is armed at 40 s.\<close>

theorem dq_results_expired_status_timeout_witness:
  "\<exists>s'. dq_results_expired example_env
          (example_state (example_query\<lparr>flags := DQ_F_LEAF_GUIDED, up_sent := 3\<rparr>)) 0 = Inr s'
      \<and> results_ev (mem s' 0) = Some \<lparr>ev_delay = 40000, ev_fn = Dq_results_expired\<rparr>"
  using dq_results_expired_status_timeout
  by (auto split: sum.splits)

end
